theory Spec2Isabelle
  imports Complex_Main
begin

section \<open>Python values\<close>

text \<open>
  The views of \<^verbatim>\<open>core/views.py\<close> work on decoded JSON and on dictionaries they build
  themselves. A value is \<^verbatim>\<open>None\<close>, a bool, an int, a str, a list or a dict with string
  keys. A dict is an association list in insertion order; a lookup takes the first entry
  of a key and an assignment replaces it in place or appends it, as Python does.
  Strings are lists of code points below 256.
\<close>

datatype pyval =
    PNone
  | PBool bool
  | PInt int
  | PStr string
  | PList "pyval list"
  | PDict "(string \<times> pyval) list"

text \<open>The exceptions the views can meet; \<open>RequestException\<close> stands for the whole
  \<^verbatim>\<open>requests.RequestException\<close> family, \<open>DatabaseError\<close> for a failure of the ORM.\<close>

datatype py_exception =
    AttributeError
  | TypeError
  | KeyError
  | ValueError
  | RequestException
  | DatabaseError

text \<open>Truth value of an object, as \<^verbatim>\<open>not x\<close> and \<^verbatim>\<open>any\<close> test it.\<close>

fun truthy :: "pyval \<Rightarrow> bool" where
  "truthy PNone = False"
| "truthy (PBool b) = b"
| "truthy (PInt i) = (i \<noteq> 0)"
| "truthy (PStr s) = (s \<noteq> [])"
| "truthy (PList xs) = (xs \<noteq> [])"
| "truthy (PDict d) = (d \<noteq> [])"

text \<open>\<^verbatim>\<open>d.get(k)\<close> and \<^verbatim>\<open>d.get(k, default)\<close> on a dict.\<close>

definition dict_get_default :: "(string \<times> pyval) list \<Rightarrow> string \<Rightarrow> pyval \<Rightarrow> pyval" where
  "dict_get_default d k dflt = (case map_of d k of None \<Rightarrow> dflt | Some v \<Rightarrow> v)"

definition dict_get :: "(string \<times> pyval) list \<Rightarrow> string \<Rightarrow> pyval" where
  "dict_get d k = dict_get_default d k PNone"

text \<open>\<^verbatim>\<open>d[k] = v\<close>.\<close>

fun dict_set :: "string \<Rightarrow> pyval \<Rightarrow> (string \<times> pyval) list \<Rightarrow> (string \<times> pyval) list" where
  "dict_set k v [] = [(k, v)]"
| "dict_set k v ((k', v') # d) = (if k' = k then (k, v) # d else (k', v') # dict_set k v d)"

subsection \<open>String methods\<close>

text \<open>\<^verbatim>\<open>str.lower\<close> on code points below 256: the ASCII capitals and the Latin-1
  capitals \<open>0xC0\<close> to \<open>0xDE\<close> (the multiplication sign \<open>0xD7\<close> apart) move up by 32.\<close>

definition lower_char :: "char \<Rightarrow> char" where
  "lower_char c =
     (let n = (of_char c :: nat) in
      if (65 \<le> n \<and> n \<le> 90) \<or> (192 \<le> n \<and> n \<le> 222 \<and> n \<noteq> 215)
      then char_of (n + 32) else c)"

definition py_lower :: "string \<Rightarrow> string" where
  "py_lower s = map lower_char s"

text \<open>Whitespace as \<^verbatim>\<open>str.strip()\<close> sees it: tab to carriage return, the separators
  \<open>0x1C\<close> to \<open>0x1F\<close>, the space, next-line \<open>0x85\<close> and the no-break space \<open>0xA0\<close>.\<close>

definition is_space :: "char \<Rightarrow> bool" where
  "is_space c =
     (let n = (of_char c :: nat) in
      (9 \<le> n \<and> n \<le> 13) \<or> (28 \<le> n \<and> n \<le> 32) \<or> n = 133 \<or> n = 160)"

definition py_strip :: "string \<Rightarrow> string" where
  "py_strip s = rev (dropWhile is_space (rev (dropWhile is_space s)))"

definition endswith :: "string \<Rightarrow> string \<Rightarrow> bool" where
  "endswith s suf = (length suf \<le> length s \<and> drop (length s - length suf) s = suf)"

definition startswith :: "string \<Rightarrow> string \<Rightarrow> bool" where
  "startswith s pre = (take (length pre) s = pre)"

text \<open>\<^verbatim>\<open>sub in s\<close> on two strings.\<close>

fun str_contains :: "string \<Rightarrow> string \<Rightarrow> bool" where
  "str_contains sub [] = (sub = [])"
| "str_contains sub (c # cs) = (startswith (c # cs) sub \<or> str_contains sub cs)"

text \<open>\<^verbatim>\<open>s.replace(' ', '+')\<close>.\<close>

definition replace_spaces :: "string \<Rightarrow> string" where
  "replace_spaces s = map (\<lambda>c. if c = CHR '' '' then CHR ''+'' else c) s"

section \<open>ResultMerger: \<^verbatim>\<open>UploadView._combine_results\<close>\<close>

definition default_thumbnail :: string where
  "default_thumbnail = ''https://via.placeholder.com/500x750/cccccc/000000?text=No+Image''"

text \<open>
  The thumbnail step of both loops:
  \<^verbatim>\<open>if not r.get('thumbnail_url') or r['thumbnail_url'].endswith("None"):
      r['thumbnail_url'] = default_thumbnail\<close>
  on a dict \<open>d\<close>. A true value that is not a str has no \<^verbatim>\<open>endswith\<close>: AttributeError.
\<close>

definition fix_thumbnail :: "(string \<times> pyval) list \<Rightarrow> py_exception + (string \<times> pyval) list" where
  "fix_thumbnail d =
     (let t = dict_get d ''thumbnail_url'' in
      if \<not> truthy t then Inr (dict_set ''thumbnail_url'' (PStr default_thumbnail) d)
      else (case t of
              PStr s \<Rightarrow>
                if endswith s ''None''
                then Inr (dict_set ''thumbnail_url'' (PStr default_thumbnail) d)
                else Inr d
            | _ \<Rightarrow> Inl AttributeError))"

text \<open>
  The first loop, over \<^verbatim>\<open>youtube_results\<close>. The records are changed in place, so the
  loop yields the list as it stands when the loop ends: every record treated when it
  runs to its end (\<^verbatim>\<open>combined\<close> then holds these same records), the records before the
  failing one treated and the rest untouched when \<^verbatim>\<open>result.get\<close> or \<^verbatim>\<open>endswith\<close>
  raises. The second component is the exception, if any. Every record is taken to be
  an object of its own, as the records are that the two clients build.
\<close>

fun youtube_loop :: "pyval list \<Rightarrow> pyval list \<times> py_exception option" where
  "youtube_loop [] = ([], None)"
| "youtube_loop (PDict d # rs) =
     (case fix_thumbnail d of
        Inl e \<Rightarrow> (PDict d # rs, Some e)
      | Inr d' \<Rightarrow> (case youtube_loop rs of (rs', x) \<Rightarrow> (PDict d' # rs', x)))"
| "youtube_loop (r # rs) = (r # rs, Some AttributeError)"

text \<open>\<^verbatim>\<open>title.lower().strip()\<close>.\<close>

definition norm_title :: "string \<Rightarrow> string" where
  "norm_title s = py_strip (py_lower s)"

text \<open>
  The set comprehension
  \<^verbatim>\<open>{r.get('title', '').lower().strip() for r in youtube_results
     if isinstance(r, dict) and r.get('title')}\<close>:
  a true title that is not a str has no \<^verbatim>\<open>lower\<close>.
\<close>

fun youtube_titles :: "pyval list \<Rightarrow> py_exception + string set" where
  "youtube_titles [] = Inr {}"
| "youtube_titles (PDict d # rs) =
     (if truthy (dict_get d ''title'')
      then (case dict_get_default d ''title'' (PStr []) of
              PStr s \<Rightarrow> (case youtube_titles rs of
                           Inl e \<Rightarrow> Inl e
                         | Inr seen \<Rightarrow> Inr (insert (norm_title s) seen))
            | _ \<Rightarrow> Inl AttributeError)
      else youtube_titles rs)"
| "youtube_titles (r # rs) = youtube_titles rs"

text \<open>
  The second loop, over \<^verbatim>\<open>tmdb_results\<close>, with \<^verbatim>\<open>combined\<close> and the set of seen titles
  as its state.
\<close>

fun tmdb_loop :: "pyval list \<Rightarrow> pyval list \<Rightarrow> string set \<Rightarrow> py_exception + pyval list" where
  "tmdb_loop [] combined seen = Inr combined"
| "tmdb_loop (PDict d # rs) combined seen =
     (if \<not> truthy (dict_get d ''title'') then tmdb_loop rs combined seen
      else (case dict_get d ''title'' of
              PStr s \<Rightarrow>
                (let tmdb_title = norm_title s in
                 if tmdb_title \<notin> seen
                 then (case fix_thumbnail d of
                         Inl e \<Rightarrow> Inl e
                       | Inr d' \<Rightarrow> tmdb_loop rs (combined @ [PDict d']) (insert tmdb_title seen))
                 else tmdb_loop rs combined seen)
            | _ \<Rightarrow> Inl AttributeError))"
| "tmdb_loop (r # rs) combined seen = tmdb_loop rs combined seen"

text \<open>
  The whole method. Both arguments are arbitrary objects; the result is always a list:
  the type check and the handler of \<^verbatim>\<open>except Exception\<close> both answer
  \<^verbatim>\<open>youtube_results if isinstance(youtube_results, list) else []\<close>, and in the handler
  \<^verbatim>\<open>youtube_results\<close> is the list as the first loop left it.
\<close>

fun combine_results :: "pyval \<Rightarrow> pyval \<Rightarrow> pyval list" where
  "combine_results (PList ys) (PList ts) =
     (case youtube_loop ys of
        (ys', Some e) \<Rightarrow> ys'
      | (ys', None) \<Rightarrow>
          (case youtube_titles ys' of
             Inl e \<Rightarrow> ys'
           | Inr seen \<Rightarrow>
               (case tmdb_loop ts ys' seen of
                  Inl e \<Rightarrow> ys'
                | Inr combined \<Rightarrow> combined)))"
| "combine_results (PList ys) t = ys"
| "combine_results y t = []"

subsection \<open>The merge as the specification words it\<close>

text \<open>\<^verbatim>\<open>isinstance(x, list)\<close>.\<close>

fun is_list :: "pyval \<Rightarrow> bool" where
  "is_list (PList xs) = True"
| "is_list x = False"

text \<open>
  A well-formed record is a mapping with a title, a non-empty text, and an optional
  thumbnail: absent, \<^verbatim>\<open>None\<close> or a text.
\<close>

fun well_formed_record :: "pyval \<Rightarrow> bool" where
  "well_formed_record (PDict d) =
     ((case dict_get d ''title'' of PStr s \<Rightarrow> s \<noteq> [] | _ \<Rightarrow> False) \<and>
      (case dict_get d ''thumbnail_url'' of PNone \<Rightarrow> True | PStr s \<Rightarrow> True | _ \<Rightarrow> False))"
| "well_formed_record r = False"

text \<open>The title of a record, the empty text when there is none.\<close>

fun title_of :: "pyval \<Rightarrow> string" where
  "title_of (PDict d) = (case dict_get d ''title'' of PStr s \<Rightarrow> s | _ \<Rightarrow> [])"
| "title_of r = []"

text \<open>A thumbnail is missing or invalid when it is absent, \<^verbatim>\<open>None\<close>, empty or a text that
  ends with the literal \<^verbatim>\<open>None\<close>; the placeholder then takes its place.\<close>

fun missing_or_invalid :: "pyval \<Rightarrow> bool" where
  "missing_or_invalid (PStr s) = (s = [] \<or> endswith s ''None'')"
| "missing_or_invalid t = (\<not> truthy t)"

fun with_placeholder :: "pyval \<Rightarrow> pyval" where
  "with_placeholder (PDict d) =
     (if missing_or_invalid (dict_get d ''thumbnail_url'')
      then PDict (dict_set ''thumbnail_url'' (PStr default_thumbnail) d)
      else PDict d)"
| "with_placeholder r = r"

text \<open>A record whose thumbnail is neither missing nor invalid.\<close>

fun has_valid_thumbnail :: "pyval \<Rightarrow> bool" where
  "has_valid_thumbnail (PDict d) = (\<not> missing_or_invalid (dict_get d ''thumbnail_url''))"
| "has_valid_thumbnail r = True"

text \<open>
  The records of a sequence whose normalized title is not yet seen, in order, each
  with the placeholder policy applied, each appended title joining the seen ones.
\<close>

fun dedup_by_title :: "string set \<Rightarrow> pyval list \<Rightarrow> pyval list" where
  "dedup_by_title seen [] = []"
| "dedup_by_title seen (r # rs) =
     (if norm_title (title_of r) \<in> seen then dedup_by_title seen rs
      else with_placeholder r # dedup_by_title (insert (norm_title (title_of r)) seen) rs)"

definition seen_titles :: "pyval list \<Rightarrow> string set" where
  "seen_titles rs = set (map (\<lambda>r. norm_title (title_of r)) rs)"

text \<open>A record of the second sequence that is not a mapping, or whose title is missing
  or empty.\<close>

fun untitled :: "pyval \<Rightarrow> bool" where
  "untitled (PDict d) = (\<not> truthy (dict_get d ''title''))"
| "untitled r = True"

section \<open>ProviderResolver: \<^verbatim>\<open>UploadView._get_providers\<close>\<close>

subsection \<open>Operations on loosely typed values\<close>

text \<open>\<^verbatim>\<open>for x in v\<close>: a list gives its items, a str its characters, a dict its keys;
  anything else is not iterable.\<close>

fun py_iter :: "pyval \<Rightarrow> py_exception + pyval list" where
  "py_iter (PList xs) = Inr xs"
| "py_iter (PStr s) = Inr (map (\<lambda>c. PStr [c]) s)"
| "py_iter (PDict d) = Inr (map (\<lambda>kv. PStr (fst kv)) d)"
| "py_iter v = Inl TypeError"

text \<open>\<^verbatim>\<open>k in v\<close> for a str \<open>k\<close>: a key of a dict, an item of a list, a substring of a
  str; \<^verbatim>\<open>None\<close>, a bool and an int are no containers.\<close>

fun py_contains :: "pyval \<Rightarrow> string \<Rightarrow> py_exception + bool" where
  "py_contains (PDict d) k = Inr (map_of d k \<noteq> None)"
| "py_contains (PList xs) k = Inr (PStr k \<in> set xs)"
| "py_contains (PStr s) k = Inr (str_contains k s)"
| "py_contains v k = Inl TypeError"

text \<open>\<^verbatim>\<open>v[k]\<close> for a str \<open>k\<close>: only a dict can be indexed by a str.\<close>

fun py_getitem :: "pyval \<Rightarrow> string \<Rightarrow> py_exception + pyval" where
  "py_getitem (PDict d) k = (case map_of d k of None \<Rightarrow> Inl KeyError | Some v \<Rightarrow> Inr v)"
| "py_getitem v k = Inl TypeError"

subsection \<open>The resolver\<close>

text \<open>The dict \<^verbatim>\<open>provider_urls\<close> has five fixed keys, all \<^verbatim>\<open>None\<close> at the start.\<close>

record provider_urls =
  netflix :: pyval
  prime :: pyval
  hulu :: pyval
  disney :: pyval
  tmdb_watch :: pyval

definition initial_provider_urls :: provider_urls where
  "initial_provider_urls =
     \<lparr>netflix = PNone, prime = PNone, hulu = PNone, disney = PNone, tmdb_watch = PNone\<rparr>"

text \<open>
  What \<^verbatim>\<open>requests.get(...)\<close>, \<^verbatim>\<open>raise_for_status()\<close> and \<^verbatim>\<open>response.json()\<close> come to, taken
  together: an exception, or the decoded body.
\<close>

datatype fetched = Raised py_exception | Body pyval

text \<open>\<^verbatim>\<open>provider.get('provider_name', '').lower()\<close>.\<close>

fun provider_name :: "pyval \<Rightarrow> py_exception + string" where
  "provider_name (PDict p) =
     (case dict_get_default p ''provider_name'' (PStr []) of
        PStr s \<Rightarrow> Inr (py_lower s)
      | _ \<Rightarrow> Inl AttributeError)"
| "provider_name v = Inl AttributeError"

text \<open>The \<^verbatim>\<open>if\<close>/\<^verbatim>\<open>elif\<close> chain on one provider name.\<close>

definition match_provider :: "string \<Rightarrow> provider_urls \<Rightarrow> provider_urls" where
  "match_provider name u =
     (if str_contains ''netflix'' name \<and> \<not> truthy (netflix u)
        then u\<lparr>netflix := tmdb_watch u\<rparr>
      else if (str_contains ''prime'' name \<or> str_contains ''amazon'' name) \<and> \<not> truthy (prime u)
        then u\<lparr>prime := tmdb_watch u\<rparr>
      else if str_contains ''hulu'' name \<and> \<not> truthy (hulu u)
        then u\<lparr>hulu := tmdb_watch u\<rparr>
      else if str_contains ''disney'' name \<and> \<not> truthy (disney u)
        then u\<lparr>disney := tmdb_watch u\<rparr>
      else u)"

text \<open>\<^verbatim>\<open>for provider in flatrate\<close>.\<close>

fun flatrate_loop :: "pyval list \<Rightarrow> provider_urls \<Rightarrow> py_exception + provider_urls" where
  "flatrate_loop [] u = Inr u"
| "flatrate_loop (p # ps) u =
     (case provider_name p of
        Inl e \<Rightarrow> Inl e
      | Inr name \<Rightarrow> flatrate_loop ps (match_provider name u))"

text \<open>\<^verbatim>\<open>any(url for key, url in provider_urls.items() if key != 'tmdb_watch')\<close>.\<close>

definition any_named :: "provider_urls \<Rightarrow> bool" where
  "any_named u = (truthy (netflix u) \<or> truthy (prime u) \<or> truthy (hulu u) \<or> truthy (disney u))"

text \<open>
  The body of the region loop once the response is decoded, from
  \<^verbatim>\<open>results = data.get('results', {})\<close> to the \<^verbatim>\<open>break\<close> test. The result is the new
  \<^verbatim>\<open>provider_urls\<close> with a flag that tells whether the loop breaks; \<^verbatim>\<open>continue\<close> on a
  region without data leaves the dict as it is and does not reach the test.
\<close>

definition region_body :: "string \<Rightarrow> pyval \<Rightarrow> provider_urls \<Rightarrow> py_exception + (bool \<times> provider_urls)" where
  "region_body reg data u =
     (case data of
        PDict dd \<Rightarrow>
          (let results = dict_get_default dd ''results'' (PDict []) in
           case py_contains results reg of
             Inl e \<Rightarrow> Inl e
           | Inr False \<Rightarrow> Inr (False, u)
           | Inr True \<Rightarrow>
               (case py_getitem results reg of
                  Inl e \<Rightarrow> Inl e
                | Inr (PDict region_data) \<Rightarrow>
                    (let u1 = u\<lparr>tmdb_watch := dict_get region_data ''link''\<rparr> in
                     case py_iter (dict_get_default region_data ''flatrate'' (PList [])) of
                       Inl e \<Rightarrow> Inl e
                     | Inr flatrate \<Rightarrow>
                         (case flatrate_loop flatrate u1 of
                            Inl e \<Rightarrow> Inl e
                          | Inr u2 \<Rightarrow> Inr (any_named u2, u2)))
                | Inr _ \<Rightarrow> Inl AttributeError))
      | _ \<Rightarrow> Inl AttributeError)"

text \<open>
  \<^verbatim>\<open>for reg in fallback_regions\<close>. The service is a function \<open>api\<close>: the \<open>n\<close>-th request of the
  call, made for region \<open>reg\<close>, comes to \<open>api n reg\<close>. The regions requested so far are
  logged in \<open>requested\<close>, so that stopping shows as no further request. Only a
  \<^verbatim>\<open>RequestException\<close> is caught (and only the request can raise one); any other
  exception leaves the method.
\<close>

fun regions_loop ::
  "(nat \<Rightarrow> string \<Rightarrow> fetched) \<Rightarrow> nat \<Rightarrow> string list \<Rightarrow> provider_urls \<Rightarrow> string list
     \<Rightarrow> string list \<times> (py_exception + provider_urls)" where
  "regions_loop api n [] u requested = (requested, Inr u)"
| "regions_loop api n (reg # regs) u requested =
     (case api n reg of
        Raised e \<Rightarrow>
          if e = RequestException then regions_loop api (Suc n) regs u (requested @ [reg])
          else (requested @ [reg], Inl e)
      | Body data \<Rightarrow>
          (case region_body reg data u of
             Inl e \<Rightarrow> (requested @ [reg], Inl e)
           | Inr (stop, u') \<Rightarrow>
               if stop then (requested @ [reg], Inr u')
               else regions_loop api (Suc n) regs u' (requested @ [reg])))"

definition fallback_regions :: "string \<Rightarrow> string list" where
  "fallback_regions region = [region, ''US'', ''GB'', ''IN'']"

definition get_providers ::
  "(nat \<Rightarrow> string \<Rightarrow> fetched) \<Rightarrow> string \<Rightarrow> string list \<times> (py_exception + provider_urls)" where
  "get_providers api region = regions_loop api 0 (fallback_regions region) initial_provider_urls []"

text \<open>A response that holds no data for the region: its \<^verbatim>\<open>results\<close> mapping, empty when
  absent, has no entry under that exact region code.\<close>

fun no_region_data :: "string \<Rightarrow> pyval \<Rightarrow> bool" where
  "no_region_data reg (PDict dd) =
     (case dict_get_default dd ''results'' (PDict []) of
        PDict rs \<Rightarrow> map_of rs reg = None
      | _ \<Rightarrow> False)"
| "no_region_data reg v = False"

text \<open>A sample service for a title whose preferred region \<^verbatim>\<open>FR\<close> lists only a provider
  outside the four platforms, whose \<^verbatim>\<open>US\<close> request fails, and which streams on Netflix
  in \<^verbatim>\<open>GB\<close>; the \<^verbatim>\<open>IN\<close> response names Netflix too, under another link.\<close>

definition sample_providers_api :: "nat \<Rightarrow> string \<Rightarrow> fetched" where
  "sample_providers_api n reg =
     (if reg = ''FR'' then
        Body (PDict [(''results'', PDict [(''FR'', PDict [(''link'', PStr ''https://tmdb/fr''),
                (''flatrate'', PList [PDict [(''provider_name'', PStr ''Mubi'')]])])])])
      else if reg = ''US'' then Raised RequestException
      else if reg = ''GB'' then
        Body (PDict [(''results'', PDict [(''GB'', PDict [(''link'', PStr ''https://tmdb/gb''),
                (''flatrate'', PList [PDict [(''provider_name'', PStr ''Netflix basic'')]])])])])
      else
        Body (PDict [(''results'', PDict [(''IN'', PDict [(''link'', PStr ''https://tmdb/in''),
                (''flatrate'', PList [PDict [(''provider_name'', PStr ''Netflix'')]])])])]))"

section \<open>The upload endpoint: \<^verbatim>\<open>UploadView.post\<close>\<close>

subsection \<open>The world outside\<close>

text \<open>
  An uploaded file as the view reads it: its name, its MIME type and its size in bytes.
  \<^verbatim>\<open>request.FILES\<close> holds only parts that carry a file name, so a file found there is a
  true object and \<^verbatim>\<open>not file\<close> means that the field is absent.
\<close>

record uploaded_file =
  file_name :: string
  content_type :: string
  file_size :: int

text \<open>
  The answer of the fingerprint service to \<^verbatim>\<open>requests.post\<close>: the call raises, or there
  is a response with a status code and a body that \<^verbatim>\<open>response.json()\<close> decodes or fails
  to decode (\<open>None\<close>).
\<close>

datatype audd_outcome = PostRaised | Replied nat "pyval option"

text \<open>A row of \<^verbatim>\<open>SearchResult\<close> (\<^verbatim>\<open>core/models.py\<close>), the creation time left out.\<close>

record search_result =
  result_id :: nat
  title :: pyval
  platform :: pyval
  url :: pyval
  thumbnail_url :: pyval
  duration :: pyval
  channel_name :: pyval
  view_count :: pyval
  netflix_url :: pyval
  prime_url :: pyval
  hulu_url :: pyval
  disney_url :: pyval

text \<open>
  The services and the clock of one request. \<open>render\<close> is Python's \<^verbatim>\<open>str()\<close> on a value
  that is not a str, as an f-string applies it; \<open>elapsed\<close> is the time measured around
  the recognition call; \<open>db_rejects\<close> tells which rows the database refuses (a
  \<^verbatim>\<open>NOT NULL\<close> column given \<^verbatim>\<open>None\<close>, a text too long for its column).
\<close>

record env =
  audd :: audd_outcome
  youtube_search :: "string \<Rightarrow> fetched"
  tmdb_search :: "pyval \<Rightarrow> fetched"
  tmdb_providers :: "string \<Rightarrow> pyval \<Rightarrow> nat \<Rightarrow> string \<Rightarrow> fetched"
  render :: "pyval \<Rightarrow> string"
  elapsed :: real
  db_rejects :: "search_result \<Rightarrow> bool"

text \<open>\<^verbatim>\<open>f"{v}"\<close>.\<close>

definition fmt :: "env \<Rightarrow> pyval \<Rightarrow> string" where
  "fmt e v = (case v of PStr s \<Rightarrow> s | _ \<Rightarrow> render e v)"

subsection \<open>The store\<close>

text \<open>A row of \<^verbatim>\<open>AudioSearch\<close> with the ids of the results attached to it.\<close>

record audio_search =
  search_id :: nat
  audio_file :: uploaded_file
  search_results :: "nat list"
  is_processed :: bool
  processing_time :: "real option"

record store =
  audio_searches :: "audio_search list"
  results :: "search_result list"
  audio_seq :: nat
  result_seq :: nat

text \<open>\<^verbatim>\<open>AudioSearch.objects.create(audio_file=file)\<close>: the defaults of the model are
  \<^verbatim>\<open>is_processed = False\<close> and no processing time. The store is taken to perform this
  write, whose data the view has just checked.\<close>

definition create_audio_search :: "uploaded_file \<Rightarrow> store \<Rightarrow> nat \<times> store" where
  "create_audio_search f st =
     (let i = Suc (audio_seq st) in
      (i, st\<lparr>audio_searches := audio_searches st @
                 [\<lparr>search_id = i, audio_file = f, search_results = [],
                   is_processed = False, processing_time = None\<rparr>],
             audio_seq := i\<rparr>))"

definition column_names :: "string list" where
  "column_names = [''title'', ''platform'', ''url'', ''thumbnail_url'', ''duration'',
     ''channel_name'', ''view_count'', ''netflix_url'', ''prime_url'', ''hulu_url'',
     ''disney_url'']"

text \<open>The row that \<^verbatim>\<open>SearchResult(**result_data)\<close> builds: a column without a keyword
  takes the default of the model.\<close>

definition search_result_of :: "nat \<Rightarrow> (string \<times> pyval) list \<Rightarrow> search_result" where
  "search_result_of i d =
     \<lparr>result_id = i,
      title = dict_get_default d ''title'' (PStr []),
      platform = dict_get_default d ''platform'' (PStr ''YouTube''),
      url = dict_get_default d ''url'' (PStr []),
      thumbnail_url = dict_get d ''thumbnail_url'',
      duration = dict_get d ''duration'',
      channel_name = dict_get d ''channel_name'',
      view_count = dict_get d ''view_count'',
      netflix_url = dict_get d ''netflix_url'',
      prime_url = dict_get d ''prime_url'',
      hulu_url = dict_get d ''hulu_url'',
      disney_url = dict_get d ''disney_url''\<rparr>"

text \<open>
  \<^verbatim>\<open>SearchResult.objects.create(**result_data)\<close>: a keyword that is no column is a
  TypeError, a row the database refuses a DatabaseError; otherwise the row is inserted
  under the next id.
\<close>

definition create_search_result ::
  "env \<Rightarrow> (string \<times> pyval) list \<Rightarrow> store \<Rightarrow> py_exception + (search_result \<times> store)" where
  "create_search_result e d st =
     (if \<not> list_all (\<lambda>kv. fst kv \<in> set column_names) d then Inl TypeError
      else (let row = search_result_of (Suc (result_seq st)) d in
            if db_rejects e row then Inl DatabaseError
            else Inr (row, st\<lparr>results := results st @ [row],
                                result_seq := Suc (result_seq st)\<rparr>)))"

text \<open>\<^verbatim>\<open>audio_search.search_results.add(result)\<close>.\<close>

definition attach_result :: "nat \<Rightarrow> nat \<Rightarrow> store \<Rightarrow> store" where
  "attach_result sid rid st =
     st\<lparr>audio_searches :=
          map (\<lambda>a. if search_id a = sid then a\<lparr>search_results := search_results a @ [rid]\<rparr> else a)
              (audio_searches st)\<rparr>"

text \<open>The update at the end: \<^verbatim>\<open>is_processed = True\<close>, the processing time, \<^verbatim>\<open>save()\<close>.\<close>

definition mark_processed :: "nat \<Rightarrow> real \<Rightarrow> store \<Rightarrow> store" where
  "mark_processed sid t st =
     st\<lparr>audio_searches :=
          map (\<lambda>a. if search_id a = sid
                    then a\<lparr>is_processed := True, processing_time := Some t\<rparr> else a)
              (audio_searches st)\<rparr>"

subsection \<open>FingerprintClient: \<^verbatim>\<open>_process_audio\<close>\<close>

text \<open>
  The method returns the decoded body or \<^verbatim>\<open>None\<close>. Every exception is caught: the one
  of the call, the one of decoding, and the AttributeError of \<^verbatim>\<open>data.get\<close> on a body
  that is no dict.
\<close>

fun process_audio :: "audd_outcome \<Rightarrow> pyval" where
  "process_audio PostRaised = PNone"
| "process_audio (Replied code None) = PNone"
| "process_audio (Replied code (Some (PDict d))) =
     (if code = 200
      then (if dict_get d ''status'' = PStr ''success'' \<and> map_of d ''result'' \<noteq> None
            then PDict d else PNone)
      else PNone)"
| "process_audio (Replied code (Some v)) = PNone"

text \<open>The test of line 42:
  \<^verbatim>\<open>not r or 'result' not in r or r['result'] is None\<close>.\<close>

definition no_result :: "pyval \<Rightarrow> py_exception + bool" where
  "no_result r =
     (if \<not> truthy r then Inr True
      else (case py_contains r ''result'' of
              Inl e \<Rightarrow> Inl e
            | Inr False \<Rightarrow> Inr True
            | Inr True \<Rightarrow> (case py_getitem r ''result'' of
                             Inl e \<Rightarrow> Inl e
                           | Inr v \<Rightarrow> Inr (v = PNone))))"

subsection \<open>VideoSearchClient: \<^verbatim>\<open>_get_youtube_results\<close>\<close>

definition youtube_default_thumbnail :: string where
  "youtube_default_thumbnail = ''https://img.youtube.com/vi/dQw4w9WgXcQ/hqdefault.jpg''"

text \<open>The four search links built from a query whose spaces are replaced by \<^verbatim>\<open>+\<close>.\<close>

definition platform_links :: "string \<Rightarrow> (string \<times> pyval) list" where
  "platform_links q =
     [(''netflix_url'', PStr (''https://www.netflix.com/search?q='' @ q)),
      (''prime_url'', PStr (''https://www.amazon.com/s?k='' @ q @ ''&i=instant-video'')),
      (''hulu_url'', PStr (''https://www.hulu.com/search?q='' @ q)),
      (''disney_url'', PStr (''https://www.disneyplus.com/search?q='' @ q))]"

text \<open>One item of the search response. Indexing and \<^verbatim>\<open>get\<close> on a value of the wrong
  type raise; nothing catches these.\<close>

definition youtube_item :: "env \<Rightarrow> string \<Rightarrow> pyval \<Rightarrow> py_exception + pyval" where
  "youtube_item e query item =
     (case py_getitem item ''id'' of
        Inl x \<Rightarrow> Inl x
      | Inr idv \<Rightarrow>
     (case py_getitem idv ''videoId'' of
        Inl x \<Rightarrow> Inl x
      | Inr video_id \<Rightarrow>
     (case py_getitem item ''snippet'' of
        Inl x \<Rightarrow> Inl x
      | Inr (PDict snippet) \<Rightarrow>
          (case dict_get_default snippet ''thumbnails'' (PDict []) of
             PDict thumbnails \<Rightarrow>
               (case dict_get_default thumbnails ''high'' (PDict []) of
                  PDict high \<Rightarrow>
                    Inr (PDict
                      ([(''title'', dict_get_default snippet ''title'' (PStr [])),
                        (''platform'', PStr ''YouTube''),
                        (''url'', PStr (''https://www.youtube.com/watch?v='' @ fmt e video_id)),
                        (''thumbnail_url'',
                            dict_get_default high ''url'' (PStr youtube_default_thumbnail)),
                        (''duration'', PStr []),
                        (''channel_name'', dict_get_default snippet ''channelTitle'' (PStr [])),
                        (''view_count'', PStr [])]
                       @ platform_links (replace_spaces query)))
                | _ \<Rightarrow> Inl AttributeError)
           | _ \<Rightarrow> Inl AttributeError)
      | Inr _ \<Rightarrow> Inl AttributeError)))"

fun youtube_items :: "env \<Rightarrow> string \<Rightarrow> pyval list \<Rightarrow> py_exception + pyval list" where
  "youtube_items e query [] = Inr []"
| "youtube_items e query (item # items) =
     (case youtube_item e query item of
        Inl x \<Rightarrow> Inl x
      | Inr r \<Rightarrow> (case youtube_items e query items of
                    Inl x \<Rightarrow> Inl x
                  | Inr rs \<Rightarrow> Inr (r # rs)))"

text \<open>The method: an empty query skips the search; a \<^verbatim>\<open>RequestException\<close> of the request
  leaves the empty list; any other exception leaves the method.\<close>

definition get_youtube_results :: "env \<Rightarrow> pyval \<Rightarrow> py_exception + pyval list" where
  "get_youtube_results e audd_result =
     (case audd_result of
        PDict r \<Rightarrow>
          (let query = py_strip (fmt e (dict_get_default r ''title'' (PStr [])) @ '' '' @
                                 fmt e (dict_get_default r ''artist'' (PStr []))) in
           if query = [] then Inr []
           else (case youtube_search e query of
                   Raised x \<Rightarrow> if x = RequestException then Inr [] else Inl x
                 | Body (PDict data) \<Rightarrow>
                     (case py_iter (dict_get_default data ''items'' (PList [])) of
                        Inl x \<Rightarrow> Inl x
                      | Inr items \<Rightarrow> youtube_items e query items)
                 | Body _ \<Rightarrow> Inl AttributeError))
      | _ \<Rightarrow> Inl AttributeError)"

subsection \<open>MetadataClient: \<^verbatim>\<open>_get_tmdb_streaming_availability\<close>\<close>

text \<open>One movie or TV item: its providers, resolved with the default region \<^verbatim>\<open>US\<close>, its
  poster and its title; \<^verbatim>\<open>movie_title.replace\<close> needs a str.\<close>

definition tmdb_item :: "env \<Rightarrow> (string \<times> pyval) list \<Rightarrow> string \<Rightarrow> py_exception + pyval" where
  "tmdb_item e item media_type =
     (case snd (get_providers (tmdb_providers e media_type (dict_get item ''id'')) ''US'') of
        Inl x \<Rightarrow> Inl x
      | Inr providers \<Rightarrow>
          (let thumbnail =
                 (if truthy (dict_get item ''poster_path'')
                  then ''https://image.tmdb.org/t/p/w500'' @ fmt e (dict_get item ''poster_path'')
                  else default_thumbnail);
               movie_title =
                 (if truthy (dict_get item ''title'') then dict_get item ''title''
                  else dict_get_default item ''name'' (PStr []))
           in case movie_title of
                PStr s \<Rightarrow>
                  Inr (PDict
                    ([(''title'', movie_title),
                      (''platform'', PStr ''TMDB''),
                      (''url'', tmdb_watch providers),
                      (''thumbnail_url'', PStr thumbnail),
                      (''duration'', PStr []),
                      (''channel_name'', PStr []),
                      (''view_count'', PStr [])]
                     @ platform_links (replace_spaces s)))
              | _ \<Rightarrow> Inl AttributeError))"

fun tmdb_items :: "env \<Rightarrow> pyval list \<Rightarrow> py_exception + pyval list" where
  "tmdb_items e [] = Inr []"
| "tmdb_items e (PDict item # items) =
     (case dict_get item ''media_type'' of
        PStr media_type \<Rightarrow>
          if media_type = ''movie'' \<or> media_type = ''tv''
          then (case tmdb_item e item media_type of
                  Inl x \<Rightarrow> Inl x
                | Inr r \<Rightarrow> (case tmdb_items e items of
                              Inl x \<Rightarrow> Inl x
                            | Inr rs \<Rightarrow> Inr (r # rs)))
          else tmdb_items e items
      | _ \<Rightarrow> tmdb_items e items)"
| "tmdb_items e (item # items) = Inl AttributeError"

definition get_tmdb_streaming_availability :: "env \<Rightarrow> pyval \<Rightarrow> py_exception + pyval list" where
  "get_tmdb_streaming_availability e audd_result =
     (case audd_result of
        PDict r \<Rightarrow>
          (let title = dict_get_default r ''title'' (PStr []) in
           if \<not> truthy title then Inr []
           else (case tmdb_search e title of
                   Raised x \<Rightarrow> if x = RequestException then Inr [] else Inl x
                 | Body (PDict data) \<Rightarrow>
                     (case py_iter (dict_get_default data ''results'' (PList [])) of
                        Inl x \<Rightarrow> Inl x
                      | Inr items \<Rightarrow> tmdb_items e items)
                 | Body _ \<Rightarrow> Inl AttributeError))
      | _ \<Rightarrow> Inl AttributeError)"

subsection \<open>SearchOrchestrator: \<^verbatim>\<open>post\<close>\<close>

text \<open>
  The loop that saves the merged records, with the rows created so far (the list
  \<^verbatim>\<open>search_results\<close> of the view) in \<open>created\<close>. A record without a true \<^verbatim>\<open>url\<close> is
  skipped. An exception ends the loop; the rows written before it stay in the store,
  since nothing rolls them back.
\<close>

fun save_results ::
  "env \<Rightarrow> nat \<Rightarrow> pyval list \<Rightarrow> store \<Rightarrow> search_result list
     \<Rightarrow> py_exception option \<times> store \<times> search_result list" where
  "save_results e sid [] st created = (None, st, created)"
| "save_results e sid (PDict result_data # rest) st created =
     (if \<not> truthy (dict_get result_data ''url'') then save_results e sid rest st created
      else (case create_search_result e result_data st of
              Inl x \<Rightarrow> (Some x, st, created)
            | Inr (row, st') \<Rightarrow>
                save_results e sid rest (attach_result sid (result_id row) st')
                  (created @ [row])))"
| "save_results e sid (result_data # rest) st created =
     (Some AttributeError, st, created)"

text \<open>
  The body of a response: an error text, the text
  \<^verbatim>\<open>Processing failed: \<close> followed by the message of the exception caught, or the search
  id, the processing time and the rows returned, each row rendered with its id and its
  eleven columns. The rounding of the time to two decimals is left out.
\<close>

datatype body =
    ErrorBody string
  | ProcessingFailed py_exception
  | ResultsBody nat real "search_result list"

type_synonym response = "nat \<times> body"

text \<open>The \<^verbatim>\<open>try\<close> block of the view, for an upload that passed the three checks.\<close>

definition process_upload :: "env \<Rightarrow> uploaded_file \<Rightarrow> store \<Rightarrow> response \<times> store" where
  "process_upload e f st =
     (case create_audio_search f st of (sid, st1) \<Rightarrow>
      (let recognition_result = process_audio (audd e) in
       case no_result recognition_result of
         Inl x \<Rightarrow> ((500, ProcessingFailed x), st1)
       | Inr True \<Rightarrow> ((500, ErrorBody ''Audio recognition failed or no result found''), st1)
       | Inr False \<Rightarrow>
           (case py_getitem recognition_result ''result'' of
              Inl x \<Rightarrow> ((500, ProcessingFailed x), st1)
            | Inr result \<Rightarrow>
           (case get_youtube_results e result of
              Inl x \<Rightarrow> ((500, ProcessingFailed x), st1)
            | Inr youtube_results \<Rightarrow>
           (case get_tmdb_streaming_availability e result of
              Inl x \<Rightarrow> ((500, ProcessingFailed x), st1)
            | Inr tmdb_results \<Rightarrow>
           (case save_results e sid
                   (combine_results (PList youtube_results) (PList tmdb_results)) st1 [] of
              (Some x, st2, created) \<Rightarrow> ((500, ProcessingFailed x), st2)
            | (None, st2, created) \<Rightarrow>
                ((200, ResultsBody sid (elapsed e) created),
                 mark_processed sid (elapsed e) st2)))))))"

text \<open>The view. The argument \<open>file\<close> is \<^verbatim>\<open>request.FILES.get('file')\<close>.\<close>

definition post :: "env \<Rightarrow> uploaded_file option \<Rightarrow> store \<Rightarrow> response \<times> store" where
  "post e file st =
     (case file of
        None \<Rightarrow> ((400, ErrorBody ''No file uploaded''), st)
      | Some f \<Rightarrow>
          if \<not> startswith (content_type f) ''audio/''
            then ((400, ErrorBody ''File must be an audio file''), st)
          else if file_size f > 10 * 1024 * 1024
            then ((400, ErrorBody ''File size must be less than 10MB''), st)
          else process_upload e f st)"

subsection \<open>Validation, recognition and results in the words of the specification\<close>

text \<open>An upload passes validation when the file field is present, its MIME type begins
  with \<^verbatim>\<open>audio/\<close> and its size is at most 10,485,760 bytes.\<close>

fun valid_upload :: "uploaded_file option \<Rightarrow> bool" where
  "valid_upload None = False"
| "valid_upload (Some f) = (startswith (content_type f) ''audio/'' \<and> file_size f \<le> 10485760)"

text \<open>
  The fingerprint service returns no usable match when the call or the response failed
  (an exception, a status other than 200, a \<^verbatim>\<open>status\<close> field other than \<^verbatim>\<open>success\<close>),
  when the body is malformed (not decodable, or not an object), when the \<^verbatim>\<open>result\<close>
  key is missing, and when the result is null.
\<close>

fun no_usable_match :: "audd_outcome \<Rightarrow> bool" where
  "no_usable_match PostRaised = True"
| "no_usable_match (Replied code None) = True"
| "no_usable_match (Replied code (Some (PDict d))) =
     (code \<noteq> 200 \<or> dict_get d ''status'' \<noteq> PStr ''success'' \<or>
      map_of d ''result'' = None \<or> dict_get d ''result'' = PNone)"
| "no_usable_match (Replied code (Some v)) = True"

text \<open>A response body that carries a reason: an error text that is not empty.\<close>

fun has_reason :: "body \<Rightarrow> bool" where
  "has_reason (ErrorBody s) = (s \<noteq> [])"
| "has_reason b = False"

text \<open>An error body whose text contains \<open>t\<close>.\<close>

fun error_contains :: "string \<Rightarrow> body \<Rightarrow> bool" where
  "error_contains t (ErrorBody s) = str_contains t s"
| "error_contains t b = False"

text \<open>The \<^verbatim>\<open>results\<close> array of a response; a body without one counts as empty.\<close>

fun returned_results :: "body \<Rightarrow> search_result list" where
  "returned_results (ResultsBody sid t rows) = rows"
| "returned_results b = []"

text \<open>A merged record, a mapping, whose \<^verbatim>\<open>url\<close> is empty or absent.\<close>

fun lacks_url :: "pyval \<Rightarrow> bool" where
  "lacks_url (PDict d) = (\<not> truthy (dict_get d ''url''))"
| "lacks_url r = False"

subsection \<open>A sample request\<close>

text \<open>
  A 2 MB MP3 recognised as \<^verbatim>\<open>Imagine\<close> by \<^verbatim>\<open>John Lennon\<close>. The video search finds one
  video; the metadata search finds a movie, streamed on Netflix in \<^verbatim>\<open>GB\<close>, and a TV
  show for which no region has data, so that its record has no watch link.
\<close>

definition sample_upload :: uploaded_file where
  "sample_upload = \<lparr>file_name = ''clip.mp3'', content_type = ''audio/mpeg'', file_size = 2097152\<rparr>"

definition sample_env :: env where
  "sample_env =
     \<lparr>audd = Replied 200 (Some (PDict [(''status'', PStr ''success''),
               (''result'', PDict [(''title'', PStr ''Imagine''), (''artist'', PStr ''John Lennon'')])])),
      youtube_search = (\<lambda>q. Body (PDict [(''items'', PList
              [PDict [(''id'', PDict [(''videoId'', PStr ''YkgkThdzX-8'')]),
                      (''snippet'', PDict [(''title'', PStr ''John Lennon - Imagine''),
                                           (''channelTitle'', PStr ''johnlennon'')])]])])),
      tmdb_search = (\<lambda>t. Body (PDict [(''results'', PList
              [PDict [(''media_type'', PStr ''movie''), (''id'', PInt 1),
                      (''title'', PStr ''Imagine''), (''poster_path'', PStr ''/p.jpg'')],
               PDict [(''media_type'', PStr ''tv''), (''id'', PInt 2),
                      (''name'', PStr ''Imagine That'')],
               PDict [(''media_type'', PStr ''person''), (''id'', PInt 3)]])])),
      tmdb_providers = (\<lambda>media_type i. if i = PInt 1 then sample_providers_api
                                             else (\<lambda>n reg. Body (PDict []))),
      render = (\<lambda>v. ''?''),
      elapsed = 3 / 2,
      db_rejects = (\<lambda>row. False)\<rparr>"

definition empty_store :: store where
  "empty_store = \<lparr>audio_searches = [], results = [], audio_seq = 0, result_seq = 0\<rparr>"

section \<open>Properties of the merge\<close>

subsection \<open>Dictionaries and the thumbnail step\<close>

lemma dict_get_set_other: "k \<noteq> k' \<Longrightarrow> dict_get (dict_set k v d) k' = dict_get d k'"
  by (induction d) (auto simp: dict_get_def dict_get_default_def)

lemma dict_get_set_same: "dict_get (dict_set k v d) k = v"
  by (induction d) (auto simp: dict_get_def dict_get_default_def)

lemma dict_get_default_truthy:
  "truthy (dict_get d k) \<Longrightarrow> dict_get_default d k dflt = dict_get d k"
  by (auto simp: dict_get_def dict_get_default_def split: option.splits)

lemma fix_thumbnail_Inr:
  "fix_thumbnail d = Inr d' \<Longrightarrow> PDict d' = with_placeholder (PDict d)"
  by (auto simp: fix_thumbnail_def Let_def split: pyval.splits if_splits)

lemma fix_thumbnail_wf:
  "well_formed_record (PDict d) \<Longrightarrow> \<exists>d'. fix_thumbnail d = Inr d'"
  by (auto simp: fix_thumbnail_def Let_def split: pyval.splits)

lemma fix_thumbnail_title:
  "fix_thumbnail d = Inr d' \<Longrightarrow> dict_get d' ''title'' = dict_get d ''title''"
  by (auto simp: fix_thumbnail_def Let_def dict_get_set_other split: pyval.splits if_splits)

lemma title_of_with_placeholder: "title_of (with_placeholder r) = title_of r"
  by (cases r) (auto simp: dict_get_set_other)

lemma well_formed_with_placeholder:
  "well_formed_record r \<Longrightarrow> well_formed_record (with_placeholder r)"
  by (cases r) (auto simp: dict_get_set_other dict_get_set_same)

lemma placeholder_is_valid: "\<not> missing_or_invalid (PStr default_thumbnail)"
  by (simp add: default_thumbnail_def endswith_def)

lemma with_placeholder_fixed:
  "with_placeholder (PDict d) = PDict d \<longleftrightarrow> \<not> missing_or_invalid (dict_get d ''thumbnail_url'')"
proof (cases "missing_or_invalid (dict_get d ''thumbnail_url'')")
  case True
  have "dict_set ''thumbnail_url'' (PStr default_thumbnail) d \<noteq> d"
  proof
    assume "dict_set ''thumbnail_url'' (PStr default_thumbnail) d = d"
    then have "dict_get d ''thumbnail_url'' = PStr default_thumbnail"
      using dict_get_set_same[of "''thumbnail_url''" "PStr default_thumbnail" d] by simp
    with True placeholder_is_valid show False by simp
  qed
  with True show ?thesis by simp
next
  case False
  then show ?thesis by simp
qed

lemma map_with_placeholder_id:
  "list_all well_formed_record xs \<Longrightarrow>
   (map with_placeholder xs = xs) = list_all has_valid_thumbnail xs"
proof (induction xs)
  case Nil
  then show ?case by simp
next
  case (Cons r rs)
  then obtain d where r: "r = PDict d" by (cases r) auto
  have "(with_placeholder r = r) = has_valid_thumbnail r"
    unfolding r has_valid_thumbnail.simps by (rule with_placeholder_fixed)
  with Cons show ?case by (simp del: with_placeholder.simps has_valid_thumbnail.simps)
qed

subsection \<open>The loops\<close>

lemma youtube_loop_wf:
  "list_all well_formed_record ys \<Longrightarrow> youtube_loop ys = (map with_placeholder ys, None)"
proof (induction ys)
  case Nil
  then show ?case by simp
next
  case (Cons r rs)
  then obtain d where r: "r = PDict d" by (cases r) auto
  with Cons.prems obtain d' where d': "fix_thumbnail d = Inr d'"
    using fix_thumbnail_wf by auto
  then have "PDict d' = with_placeholder r" using r fix_thumbnail_Inr by simp
  with Cons r d' show ?case by simp
qed

lemma youtube_loop_keeps:
  "youtube_loop ys = (ys', x) \<Longrightarrow> list_all2 (\<lambda>r r'. r' = r \<or> r' = with_placeholder r) ys ys'"
proof (induction ys arbitrary: ys' x rule: youtube_loop.induct)
  case 1
  then show ?case by simp
next
  case (2 d rs)
  show ?case
  proof (cases "fix_thumbnail d")
    case (Inl e)
    with 2 show ?thesis by (auto simp: list_all2_same list.rel_refl)
  next
    case (Inr d')
    obtain rs' y where l: "youtube_loop rs = (rs', y)" by fastforce
    from 2(1)[OF Inr l] have "list_all2 (\<lambda>r r'. r' = r \<or> r' = with_placeholder r) rs rs'" .
    moreover from 2(2) Inr l have "ys' = PDict d' # rs'" by simp
    moreover have "PDict d' = with_placeholder (PDict d)" using Inr by (rule fix_thumbnail_Inr)
    ultimately show ?thesis by simp
  qed
qed (auto simp: list.rel_refl)

lemma youtube_titles_wf:
  "list_all well_formed_record ys \<Longrightarrow> youtube_titles ys = Inr (seen_titles ys)"
proof (induction ys)
  case Nil
  then show ?case by (simp add: seen_titles_def)
next
  case (Cons r rs)
  then obtain d where r: "r = PDict d" by (cases r) auto
  with Cons show ?case
    by (auto simp: seen_titles_def dict_get_default_truthy split: pyval.splits)
qed

lemma tmdb_loop_wf:
  "list_all well_formed_record ts \<Longrightarrow>
   tmdb_loop ts combined seen = Inr (combined @ dedup_by_title seen ts)"
proof (induction ts arbitrary: combined seen)
  case Nil
  then show ?case by simp
next
  case (Cons r rs)
  then obtain d where r: "r = PDict d" by (cases r) auto
  with Cons.prems obtain s where s: "dict_get d ''title'' = PStr s" "s \<noteq> []"
    by (auto split: pyval.splits)
  from Cons.prems r obtain d' where d': "fix_thumbnail d = Inr d'"
    using fix_thumbnail_wf by auto
  then have wp: "PDict d' = with_placeholder r" using r fix_thumbnail_Inr by simp
  from Cons.prems have rs: "list_all well_formed_record rs" by simp
  show ?case
  proof (cases "norm_title s \<in> seen")
    case True
    with r s Cons.IH[OF rs] show ?thesis by simp
  next
    case False
    with r s d' wp Cons.IH[OF rs, of "combined @ [PDict d']" "insert (norm_title s) seen"]
    show ?thesis by simp
  qed
qed

lemma tmdb_loop_filter:
  "tmdb_loop (filter (\<lambda>r. \<not> untitled r) ts) combined seen = tmdb_loop ts combined seen"
proof (induction ts combined seen rule: tmdb_loop.induct)
  case (2 d rs combined seen)
  then show ?case
    by (auto simp: Let_def split: pyval.splits sum.splits)
qed auto

lemma tmdb_loop_appends:
  "tmdb_loop ts combined seen = Inr out \<Longrightarrow>
   \<exists>app. out = combined @ app \<and> (\<forall>r \<in> set app. \<not> untitled r)"
proof (induction ts combined seen arbitrary: out rule: tmdb_loop.induct)
  case (2 d rs combined seen)
  show ?case
  proof (cases "truthy (dict_get d ''title'')")
    case False
    with 2 show ?thesis by simp
  next
    case True
    with "2.prems" obtain s where s: "dict_get d ''title'' = PStr s"
      by (auto split: pyval.splits)
    show ?thesis
    proof (cases "norm_title s \<in> seen")
      case True
      with 2 s \<open>truthy (dict_get d ''title'')\<close> show ?thesis by simp
    next
      case False
      with "2.prems" s True obtain d' where d': "fix_thumbnail d = Inr d'"
        by (auto split: sum.splits)
      with "2.prems" s True False
      have "tmdb_loop rs (combined @ [PDict d']) (insert (norm_title s) seen) = Inr out"
        by simp
      with "2.IH"(2)[OF _ s refl False d'] True
      obtain app where app: "out = (combined @ [PDict d']) @ app" "\<forall>r \<in> set app. \<not> untitled r"
        by auto
      have "\<not> untitled (PDict d')" using fix_thumbnail_title[OF d'] True by simp
      with app show ?thesis by (intro exI[of _ "PDict d' # app"]) simp
    qed
  qed
qed auto

lemma dedup_by_title_seen:
  "seen_titles ts \<subseteq> seen \<Longrightarrow> dedup_by_title seen ts = []"
  by (induction ts arbitrary: seen) (auto simp: seen_titles_def)

lemma combine_results_well_formed: 
  assumes "list_all well_formed_record ys" and "list_all well_formed_record ts"
  shows "combine_results (PList ys) (PList ts) =
           map with_placeholder ys @ dedup_by_title (seen_titles ys) ts"
proof -
  have 1: "youtube_loop ys = (map with_placeholder ys, None)"
    using assms(1) by (rule youtube_loop_wf)
  have "list_all well_formed_record (map with_placeholder ys)"
    using assms(1) by (induction ys) (auto simp: well_formed_with_placeholder)
  then have "youtube_titles (map with_placeholder ys) = Inr (seen_titles (map with_placeholder ys))"
    by (rule youtube_titles_wf)
  also have "seen_titles (map with_placeholder ys) = seen_titles ys"
    by (simp add: seen_titles_def title_of_with_placeholder comp_def)
  finally have 2: "youtube_titles (map with_placeholder ys) = Inr (seen_titles ys)" .
  show ?thesis using 1 2 tmdb_loop_wf[OF assms(2)] by simp
qed

lemma combine_results_shape:
  "\<exists>ys' app. combine_results (PList ys) (PList ts) = ys' @ app \<and>
     list_all2 (\<lambda>r r'. r' = r \<or> r' = with_placeholder r) ys ys' \<and>
     (\<forall>r \<in> set app. \<not> untitled r)"
proof -
  obtain ys' x where l: "youtube_loop ys = (ys', x)" by fastforce
  have k: "list_all2 (\<lambda>r r'. r' = r \<or> r' = with_placeholder r) ys ys'"
    using l by (rule youtube_loop_keeps)
  have nil: "combine_results (PList ys) (PList ts) = ys' @ [] \<Longrightarrow> ?thesis"
    using k by (intro exI[of _ ys'] exI[of _ "[]"]) simp
  show ?thesis
  proof (cases x)
    case (Some e)
    with l have "combine_results (PList ys) (PList ts) = ys' @ []" by simp
    then show ?thesis by (rule nil)
  next
    case None
    show ?thesis
    proof (cases "youtube_titles ys'")
      case (Inl e)
      with l None have "combine_results (PList ys) (PList ts) = ys' @ []" by simp
      then show ?thesis by (rule nil)
    next
      case (Inr seen)
      show ?thesis
      proof (cases "tmdb_loop ts ys' seen")
        case (Inl e)
        with l None \<open>youtube_titles ys' = Inr seen\<close>
        have "combine_results (PList ys) (PList ts) = ys' @ []" by simp
        then show ?thesis by (rule nil)
      next
        case (Inr out)
        from tmdb_loop_appends[OF Inr] obtain app where
          a: "out = ys' @ app" "\<forall>r \<in> set app. \<not> untitled r" by blast
        have "combine_results (PList ys) (PList ts) = out"
          using l None \<open>youtube_titles ys' = Inr seen\<close> Inr by simp
        with a k show ?thesis by (intro exI[of _ ys'] exI[of _ app]) simp
      qed
    qed
  qed
qed

subsection \<open>Claims on the merge\<close>

text \<open>
  C1. For two well-formed lists of records the merge returns, in order, the whole first
  list with the placeholder put in for every missing or invalid thumbnail, followed by
  the records of the second list whose normalized title (lowercased, whitespace trimmed)
  is not among the titles seen so far, each with the same placeholder policy; every
  appended title joins the seen ones, so a later duplicate inside the second list is
  suppressed as well.
\<close>

theorem merge_first_then_unseen_titles:
  assumes "list_all well_formed_record ys" and "list_all well_formed_record ts"
  shows "combine_results (PList ys) (PList ts) =
           map with_placeholder ys @ dedup_by_title (seen_titles ys) ts"
  using assms by (rule combine_results_well_formed)

text \<open>
  The titles \<^verbatim>\<open>"Foo "\<close> and \<^verbatim>\<open>"foo"\<close> collide, as do \<^verbatim>\<open>"Bar"\<close> and \<^verbatim>\<open>" BAR"\<close> inside
  the second list; the thumbnail \<^verbatim>\<open>posterNone\<close> gives way to the placeholder.
\<close>

theorem merge_first_then_unseen_titles_witness:
  "list_all well_formed_record
     [PDict [(''title'', PStr ''Foo ''), (''url'', PStr ''u1'')]] \<and>
   list_all well_formed_record
     [PDict [(''title'', PStr ''foo''), (''url'', PStr ''u2'')],
      PDict [(''title'', PStr ''Bar''), (''thumbnail_url'', PStr ''posterNone'')],
      PDict [(''title'', PStr '' BAR''), (''url'', PStr ''u3'')]] \<and>
   combine_results
     (PList [PDict [(''title'', PStr ''Foo ''), (''url'', PStr ''u1'')]])
     (PList [PDict [(''title'', PStr ''foo''), (''url'', PStr ''u2'')],
             PDict [(''title'', PStr ''Bar''), (''thumbnail_url'', PStr ''posterNone'')],
             PDict [(''title'', PStr '' BAR''), (''url'', PStr ''u3'')]]) =
     [PDict [(''title'', PStr ''Foo ''), (''url'', PStr ''u1''),
             (''thumbnail_url'', PStr default_thumbnail)],
      PDict [(''title'', PStr ''Bar''), (''thumbnail_url'', PStr default_thumbnail)]]"
proof -
  let ?ys = "[PDict [(''title'', PStr ''Foo ''), (''url'', PStr ''u1'')]]"
  let ?ts = "[PDict [(''title'', PStr ''foo''), (''url'', PStr ''u2'')],
      PDict [(''title'', PStr ''Bar''), (''thumbnail_url'', PStr ''posterNone'')],
      PDict [(''title'', PStr '' BAR''), (''url'', PStr ''u3'')]]"
  have a: "list_all well_formed_record ?ys" by code_simp
  have b: "list_all well_formed_record ?ts" by code_simp
  have c: "map with_placeholder ?ys @ dedup_by_title (seen_titles ?ys) ?ts =
     [PDict [(''title'', PStr ''Foo ''), (''url'', PStr ''u1''),
             (''thumbnail_url'', PStr default_thumbnail)],
      PDict [(''title'', PStr ''Bar''), (''thumbnail_url'', PStr default_thumbnail)]]"
    by code_simp
  show ?thesis using merge_first_then_unseen_titles[OF a b] a b c by simp
qed

text \<open>
  C4, as stated: merging a list with itself yields the original list. A record without
  a thumbnail comes back with the placeholder, so the result is not the list that went
  in (the records being changed in place, the caller's list shows the placeholder
  afterwards too).
\<close>

theorem self_merge_original_list_counterexample:
  "combine_results (PList [PDict [(''title'', PStr ''Imagine'')]])
                   (PList [PDict [(''title'', PStr ''Imagine'')]])
   \<noteq> [PDict [(''title'', PStr ''Imagine'')]]"
  by code_simp

text \<open>
  C4, amended. Merging a well-formed list with itself yields the list with the
  placeholder put in for every missing or invalid thumbnail and nothing else: the second
  copy is deduplicated away entirely. The result is the original list exactly when every
  record has a valid thumbnail.
\<close>

theorem self_merge_adds_nothing:
  assumes "list_all well_formed_record xs"
  shows "combine_results (PList xs) (PList xs) = map with_placeholder xs \<and>
         (combine_results (PList xs) (PList xs) = xs \<longleftrightarrow> list_all has_valid_thumbnail xs)"
  using combine_results_well_formed[OF assms assms] map_with_placeholder_id[OF assms]
  by (simp add: dedup_by_title_seen)

theorem self_merge_adds_nothing_witness:
  "list_all well_formed_record
     [PDict [(''title'', PStr ''Imagine''), (''thumbnail_url'', PStr ''t1'')],
      PDict [(''title'', PStr ''imagine ''), (''url'', PStr ''u2'')]] \<and>
   combine_results
     (PList [PDict [(''title'', PStr ''Imagine''), (''thumbnail_url'', PStr ''t1'')],
             PDict [(''title'', PStr ''imagine ''), (''url'', PStr ''u2'')]])
     (PList [PDict [(''title'', PStr ''Imagine''), (''thumbnail_url'', PStr ''t1'')],
             PDict [(''title'', PStr ''imagine ''), (''url'', PStr ''u2'')]]) =
     [PDict [(''title'', PStr ''Imagine''), (''thumbnail_url'', PStr ''t1'')],
      PDict [(''title'', PStr ''imagine ''), (''url'', PStr ''u2''),
             (''thumbnail_url'', PStr default_thumbnail)]]"
proof -
  let ?xs = "[PDict [(''title'', PStr ''Imagine''), (''thumbnail_url'', PStr ''t1'')],
      PDict [(''title'', PStr ''imagine ''), (''url'', PStr ''u2'')]]"
  have a: "list_all well_formed_record ?xs" by code_simp
  have c: "map with_placeholder ?xs =
     [PDict [(''title'', PStr ''Imagine''), (''thumbnail_url'', PStr ''t1'')],
      PDict [(''title'', PStr ''imagine ''), (''url'', PStr ''u2''),
             (''thumbnail_url'', PStr default_thumbnail)]]"
    by code_simp
  show ?thesis using self_merge_adds_nothing[OF a, THEN conjunct1] a c by simp
qed

text \<open>
  C5, as stated: a well-formed second sequence is returned when the first is malformed.
  The type check answers \<^verbatim>\<open>youtube_results if isinstance(youtube_results, list) else []\<close>,
  so with a first argument that is no list the second one is lost.
\<close>

theorem malformed_first_returns_second_counterexample:
  "combine_results PNone (PList [PDict [(''title'', PStr ''Imagine''), (''url'', PStr ''u'')]])
   \<noteq> [PDict [(''title'', PStr ''Imagine''), (''url'', PStr ''u'')]]"
  by simp

text \<open>
  C5, amended. When either argument is not a list, the merge returns the first argument
  unchanged if that one is a list, and the empty list otherwise, whatever the second
  argument holds.
\<close>

theorem malformed_input_falls_back_to_first:
  assumes "\<not> is_list y \<or> \<not> is_list t"
  shows "combine_results y t = (case y of PList ys \<Rightarrow> ys | _ \<Rightarrow> [])"
  using assms by (cases y; cases t) auto

theorem malformed_input_falls_back_to_first_witness:
  "\<not> is_list (PStr ''oops'') \<and>
   combine_results (PList [PDict [(''title'', PStr ''Imagine'')]]) (PStr ''oops'')
     = [PDict [(''title'', PStr ''Imagine'')]] \<and>
   combine_results (PStr ''oops'') (PList [PDict [(''title'', PStr ''Imagine'')]]) = []"
  using malformed_input_falls_back_to_first[of "PList [PDict [(''title'', PStr ''Imagine'')]]" "PStr ''oops''"]
        malformed_input_falls_back_to_first[of "PStr ''oops''" "PList [PDict [(''title'', PStr ''Imagine'')]]"]
  by simp

text \<open>
  C9. A record of the second list that is not a mapping, or whose title is missing or
  empty, is dropped: the merge gives the same result with these records removed from the
  second list, and nothing it appends after the first list is such a record. The first
  list is kept whole, position by position, each record as it was or with the
  placeholder thumbnail, whether it has a title or not.
\<close>

theorem untitled_second_records_dropped:
  "combine_results (PList ys) (PList (filter (\<lambda>r. \<not> untitled r) ts))
     = combine_results (PList ys) (PList ts) \<and>
   (\<forall>r \<in> set (drop (length ys) (combine_results (PList ys) (PList ts))). \<not> untitled r) \<and>
   list_all2 (\<lambda>r r'. r' = r \<or> r' = with_placeholder r)
     ys (take (length ys) (combine_results (PList ys) (PList ts)))"
proof -
  obtain ys' app where s: "combine_results (PList ys) (PList ts) = ys' @ app"
    "list_all2 (\<lambda>r r'. r' = r \<or> r' = with_placeholder r) ys ys'"
    "\<forall>r \<in> set app. \<not> untitled r"
    using combine_results_shape by blast
  have len: "length ys' = length ys" using s(2) by (simp add: list_all2_lengthD)
  have "combine_results (PList ys) (PList (filter (\<lambda>r. \<not> untitled r) ts))
     = combine_results (PList ys) (PList ts)"
    by (simp add: tmdb_loop_filter split: prod.splits option.splits sum.splits)
  then show ?thesis using s len by simp
qed

theorem untitled_second_records_dropped_witness:
  "untitled (PDict [(''url'', PStr ''u0'')]) \<and> untitled (PInt 7) \<and>
   untitled (PDict [(''title'', PStr []), (''url'', PStr ''u1'')]) \<and>
   combine_results
     (PList [PDict [(''url'', PStr ''u0'')]])
     (PList [PInt 7, PDict [(''title'', PStr []), (''url'', PStr ''u1'')],
             PDict [(''url'', PStr ''u2'')],
             PDict [(''title'', PStr ''Imagine''), (''url'', PStr ''u3'')]]) =
     [PDict [(''url'', PStr ''u0''), (''thumbnail_url'', PStr default_thumbnail)],
      PDict [(''title'', PStr ''Imagine''), (''url'', PStr ''u3''),
             (''thumbnail_url'', PStr default_thumbnail)]]"
proof -
  let ?ys = "[PDict [(''url'', PStr ''u0'')]]"
  let ?ts = "[PInt 7, PDict [(''title'', PStr []), (''url'', PStr ''u1'')],
             PDict [(''url'', PStr ''u2'')],
             PDict [(''title'', PStr ''Imagine''), (''url'', PStr ''u3'')]]"
  have f: "filter (\<lambda>r. \<not> untitled r) ?ts = [PDict [(''title'', PStr ''Imagine''), (''url'', PStr ''u3'')]]"
    by (simp add: dict_get_def dict_get_default_def)
  have c: "combine_results (PList ?ys) (PList [PDict [(''title'', PStr ''Imagine''), (''url'', PStr ''u3'')]])
     = [PDict [(''url'', PStr ''u0''), (''thumbnail_url'', PStr default_thumbnail)],
      PDict [(''title'', PStr ''Imagine''), (''url'', PStr ''u3''),
             (''thumbnail_url'', PStr default_thumbnail)]]"
    by code_simp
  have u: "untitled (PDict [(''url'', PStr ''u0'')]) \<and> untitled (PInt 7) \<and>
   untitled (PDict [(''title'', PStr []), (''url'', PStr ''u1'')])"
    by (simp add: dict_get_def dict_get_default_def)
  from untitled_second_records_dropped[of ?ys ?ts] have "combine_results (PList ?ys) (PList (filter (\<lambda>r. \<not> untitled r) ?ts))
     = combine_results (PList ?ys) (PList ?ts)" by (rule conjunct1)
  then have "combine_results (PList ?ys) (PList ?ts)
     = combine_results (PList ?ys) (PList (filter (\<lambda>r. \<not> untitled r) ?ts))" by (rule sym)
  also have "\<dots> = combine_results (PList ?ys)
      (PList [PDict [(''title'', PStr ''Imagine''), (''url'', PStr ''u3'')]])"
    by (simp only: f)
  also note c
  finally have r: "combine_results (PList ?ys) (PList ?ts) =
     [PDict [(''url'', PStr ''u0''), (''thumbnail_url'', PStr default_thumbnail)],
      PDict [(''title'', PStr ''Imagine''), (''url'', PStr ''u3''),
             (''thumbnail_url'', PStr default_thumbnail)]]" .
  from u r show ?thesis by blast
qed

section \<open>Properties of the provider resolver\<close>

lemma match_provider_keeps:
  "truthy (netflix u) \<Longrightarrow> netflix (match_provider name u) = netflix u"
  "truthy (prime u) \<Longrightarrow> prime (match_provider name u) = prime u"
  "truthy (hulu u) \<Longrightarrow> hulu (match_provider name u) = hulu u"
  "truthy (disney u) \<Longrightarrow> disney (match_provider name u) = disney u"
  by (simp_all add: match_provider_def)

lemma flatrate_loop_keeps:
  "flatrate_loop ps u = Inr u' \<Longrightarrow>
     (truthy (netflix u) \<longrightarrow> netflix u' = netflix u) \<and>
     (truthy (prime u) \<longrightarrow> prime u' = prime u) \<and>
     (truthy (hulu u) \<longrightarrow> hulu u' = hulu u) \<and>
     (truthy (disney u) \<longrightarrow> disney u' = disney u)"
proof (induction ps arbitrary: u)
  case Nil
  then show ?case by simp
next
  case (Cons p ps)
  then obtain name where n: "provider_name p = Inr name"
    and l: "flatrate_loop ps (match_provider name u) = Inr u'"
    by (auto split: sum.splits)
  from Cons.IH[OF l] show ?case by (auto simp: match_provider_keeps)
qed

lemma region_body_keeps:
  assumes "region_body reg data u = Inr (stop, u')"
  shows "(truthy (netflix u) \<longrightarrow> netflix u' = netflix u) \<and>
     (truthy (prime u) \<longrightarrow> prime u' = prime u) \<and>
     (truthy (hulu u) \<longrightarrow> hulu u' = hulu u) \<and>
     (truthy (disney u) \<longrightarrow> disney u' = disney u)"
proof -
  from assms consider "u' = u"
    | rd fl where "flatrate_loop fl (u\<lparr>tmdb_watch := dict_get rd ''link''\<rparr>) = Inr u'"
    by (auto simp: region_body_def Let_def split: pyval.splits sum.splits bool.splits)
  then show ?thesis
  proof cases
    case 1
    then show ?thesis by simp
  next
    case 2
    from flatrate_loop_keeps[OF 2] show ?thesis by simp
  qed
qed

lemma regions_loop_keeps:
  "regions_loop api n regs u requested = (requested', Inr u') \<Longrightarrow>
     (truthy (netflix u) \<longrightarrow> netflix u' = netflix u) \<and>
     (truthy (prime u) \<longrightarrow> prime u' = prime u) \<and>
     (truthy (hulu u) \<longrightarrow> hulu u' = hulu u) \<and>
     (truthy (disney u) \<longrightarrow> disney u' = disney u)"
proof (induction api n regs u requested rule: regions_loop.induct)
  case (1 api n u requested)
  then show ?case by simp
next
  case (2 api n reg regs u requested)
  show ?case
  proof (cases "api n reg")
    case (Raised e)
    with "2.prems" have e: "e = RequestException"
      and l: "regions_loop api (Suc n) regs u (requested @ [reg]) = (requested', Inr u')"
      by (auto split: if_splits)
    from "2.IH"(1)[OF Raised e l] show ?thesis .
  next
    case (Body data)
    with "2.prems" obtain stop u1 where b: "region_body reg data u = Inr (stop, u1)"
      by (auto split: sum.splits)
    note k = region_body_keeps[OF b]
    show ?thesis
    proof (cases stop)
      case True
      with "2.prems" Body b have "u' = u1" by simp
      with k show ?thesis by simp
    next
      case False
      with "2.prems" Body b
      have l: "regions_loop api (Suc n) regs u1 (requested @ [reg]) = (requested', Inr u')"
        by simp
      from "2.IH"(2)[OF Body b refl False l] k show ?thesis by auto
    qed
  qed
qed

lemma region_body_stop:
  assumes "region_body reg data u = Inr (stop, u')" and "\<not> any_named u"
  shows "stop = any_named u'"
  using assms
  by (auto simp: region_body_def Let_def split: pyval.splits sum.splits bool.splits)

lemma region_body_stop_filled:
  assumes "region_body reg data u = Inr (True, u')"
  shows "any_named u'"
  using assms
  by (auto simp: region_body_def Let_def split: pyval.splits sum.splits bool.splits)

lemma region_body_no_data:
  "no_region_data reg data \<Longrightarrow> region_body reg data u = Inr (False, u)"
  by (cases data) (auto simp: region_body_def Let_def split: pyval.splits)

lemma regions_loop_unfilled_all:
  "regions_loop api n regs u requested = (requested', Inr u') \<Longrightarrow> \<not> any_named u' \<Longrightarrow>
   requested' = requested @ regs"
proof (induction api n regs u requested rule: regions_loop.induct)
  case (1 api n u requested)
  then show ?case by simp
next
  case (2 api n reg regs u requested)
  show ?case
  proof (cases "api n reg")
    case (Raised e)
    with "2.prems" have e: "e = RequestException"
      and l: "regions_loop api (Suc n) regs u (requested @ [reg]) = (requested', Inr u')"
      by (auto split: if_splits)
    from "2.IH"(1)[OF Raised e l "2.prems"(2)] show ?thesis by simp
  next
    case (Body data)
    with "2.prems" obtain stop u1 where b: "region_body reg data u = Inr (stop, u1)"
      by (auto split: sum.splits)
    show ?thesis
    proof (cases stop)
      case True
      with "2.prems" Body b have "u' = u1" by simp
      moreover from b True have "any_named u1" using region_body_stop_filled by simp
      ultimately show ?thesis using "2.prems"(2) by simp
    next
      case False
      with "2.prems" Body b
      have l: "regions_loop api (Suc n) regs u1 (requested @ [reg]) = (requested', Inr u')"
        by simp
      from "2.IH"(2)[OF Body b refl False l "2.prems"(2)] show ?thesis by simp
    qed
  qed
qed

text \<open>
  C2. A platform slot counts as assigned when it holds a true (non-empty) value, which
  is the test the code makes before it writes one. From any point of the iteration on,
  whatever regions are still to come and whatever they answer, a slot that is assigned
  keeps its value to the end: no later region of the fallback order overwrites it.
\<close>

theorem assigned_slot_never_overwritten:
  assumes "regions_loop api n regs u requested = (requested', Inr u')"
  shows "(truthy (netflix u) \<longrightarrow> netflix u' = netflix u) \<and>
     (truthy (prime u) \<longrightarrow> prime u' = prime u) \<and>
     (truthy (hulu u) \<longrightarrow> hulu u' = hulu u) \<and>
     (truthy (disney u) \<longrightarrow> disney u' = disney u)"
  using assms by (rule regions_loop_keeps)

text \<open>
  After \<^verbatim>\<open>GB\<close> has filled the Netflix slot, the \<^verbatim>\<open>IN\<close> response, which names Netflix under
  another link, moves the watch-page slot only.
\<close>

theorem assigned_slot_never_overwritten_witness:
  "truthy (netflix \<lparr>netflix = PStr ''https://tmdb/gb'', prime = PNone, hulu = PNone,
             disney = PNone, tmdb_watch = PStr ''https://tmdb/gb''\<rparr>) \<and>
   regions_loop sample_providers_api 3 [''IN'']
      \<lparr>netflix = PStr ''https://tmdb/gb'', prime = PNone, hulu = PNone,
         disney = PNone, tmdb_watch = PStr ''https://tmdb/gb''\<rparr> [''FR'', ''US'', ''GB'']
     = ([''FR'', ''US'', ''GB'', ''IN''],
        Inr \<lparr>netflix = PStr ''https://tmdb/gb'', prime = PNone, hulu = PNone,
         disney = PNone, tmdb_watch = PStr ''https://tmdb/in''\<rparr>) \<and>
   netflix \<lparr>netflix = PStr ''https://tmdb/gb'', prime = PNone, hulu = PNone,
         disney = PNone, tmdb_watch = PStr ''https://tmdb/in''\<rparr> = PStr ''https://tmdb/gb''"
proof -
  let ?u = "\<lparr>netflix = PStr ''https://tmdb/gb'', prime = PNone, hulu = PNone,
             disney = PNone, tmdb_watch = PStr ''https://tmdb/gb''\<rparr>"
  let ?u' = "\<lparr>netflix = PStr ''https://tmdb/gb'', prime = PNone, hulu = PNone,
             disney = PNone, tmdb_watch = PStr ''https://tmdb/in''\<rparr>"
  have run: "regions_loop sample_providers_api 3 [''IN''] ?u [''FR'', ''US'', ''GB'']
     = ([''FR'', ''US'', ''GB'', ''IN''], Inr ?u')"
    by code_simp
  have t: "truthy (netflix ?u)" by simp
  from assigned_slot_never_overwritten[OF run] t have "netflix ?u' = netflix ?u" by blast
  with run t show ?thesis by simp
qed

text \<open>
  C3. At a region reached with no named slot filled, as every region of a call is: when
  the region's data are processed, the iteration stops there, with no further request,
  exactly if one of the four named slots is then filled, and goes on to the next region
  otherwise, the watch-page slot filled or not; a region whose request fails with a
  network error, or whose response has no data under that region code, is skipped with
  the slots unchanged and the iteration goes on. In a whole call that ends with no named
  slot filled, all four regions have been requested.
\<close>

theorem iteration_stops_at_first_named_slot:
  "(\<not> any_named u \<and> api n reg = Body data \<and> region_body reg data u = Inr (stop, u') \<longrightarrow>
      regions_loop api n (reg # regs) u requested =
        (if any_named u' then (requested @ [reg], Inr u')
         else regions_loop api (Suc n) regs u' (requested @ [reg]))) \<and>
   (api n reg = Raised RequestException \<or> (api n reg = Body data \<and> no_region_data reg data) \<longrightarrow>
      regions_loop api n (reg # regs) u requested =
        regions_loop api (Suc n) regs u (requested @ [reg])) \<and>
   (get_providers api region = (requested', Inr r) \<and> \<not> any_named r \<longrightarrow>
      requested' = fallback_regions region)"
proof (intro conjI impI)
  assume a: "\<not> any_named u \<and> api n reg = Body data \<and> region_body reg data u = Inr (stop, u')"
  then have "stop = any_named u'" using region_body_stop by blast
  with a show "regions_loop api n (reg # regs) u requested =
        (if any_named u' then (requested @ [reg], Inr u')
         else regions_loop api (Suc n) regs u' (requested @ [reg]))"
    by simp
next
  assume "api n reg = Raised RequestException \<or> (api n reg = Body data \<and> no_region_data reg data)"
  then show "regions_loop api n (reg # regs) u requested =
        regions_loop api (Suc n) regs u (requested @ [reg])"
    by (auto simp: region_body_no_data)
next
  assume "get_providers api region = (requested', Inr r) \<and> \<not> any_named r"
  then show "requested' = fallback_regions region"
    using regions_loop_unfilled_all[of api 0 "fallback_regions region" initial_provider_urls "[]" requested' r]
    by (simp add: get_providers_def)
qed

text \<open>
  The preferred region \<^verbatim>\<open>FR\<close> fills the watch-page slot only and the iteration goes on;
  the \<^verbatim>\<open>US\<close> request fails and is skipped; \<^verbatim>\<open>GB\<close> fills the Netflix slot and \<^verbatim>\<open>IN\<close> is
  never requested. A service with data for \<^verbatim>\<open>CA\<close> alone is asked for all four regions.
\<close>

theorem iteration_stops_at_first_named_slot_witness:
  "\<not> any_named initial_provider_urls \<and>
   get_providers sample_providers_api ''FR'' =
     ([''FR'', ''US'', ''GB''],
      Inr \<lparr>netflix = PStr ''https://tmdb/gb'', prime = PNone, hulu = PNone,
            disney = PNone, tmdb_watch = PStr ''https://tmdb/gb''\<rparr>) \<and>
   no_region_data ''US'' (PDict [(''results'', PDict [(''CA'', PDict [])])]) \<and>
   get_providers (\<lambda>n reg. Body (PDict [(''results'', PDict [(''CA'', PDict [])])])) ''US'' =
     ([''US'', ''US'', ''GB'', ''IN''], Inr initial_provider_urls)"
proof -
  let ?api = sample_providers_api
  let ?i = initial_provider_urls
  let ?dFR = "PDict [(''results'', PDict [(''FR'', PDict [(''link'', PStr ''https://tmdb/fr''),
                (''flatrate'', PList [PDict [(''provider_name'', PStr ''Mubi'')]])])])]"
  let ?dGB = "PDict [(''results'', PDict [(''GB'', PDict [(''link'', PStr ''https://tmdb/gb''),
                (''flatrate'', PList [PDict [(''provider_name'', PStr ''Netflix basic'')]])])])]"
  let ?u1 = "\<lparr>netflix = PNone, prime = PNone, hulu = PNone, disney = PNone,
              tmdb_watch = PStr ''https://tmdb/fr''\<rparr>"
  let ?u3 = "\<lparr>netflix = PStr ''https://tmdb/gb'', prime = PNone, hulu = PNone,
              disney = PNone, tmdb_watch = PStr ''https://tmdb/gb''\<rparr>"
  have n0: "\<not> any_named ?i" by (simp add: any_named_def initial_provider_urls_def)
  have n1: "\<not> any_named ?u1" by (simp add: any_named_def)
  have n3: "any_named ?u3" by (simp add: any_named_def)
  have d0: "?api 0 ''FR'' = Body ?dFR" by (simp add: sample_providers_api_def)
  have d1: "?api (Suc 0) ''US'' = Raised RequestException" by (simp add: sample_providers_api_def)
  have d2: "?api (Suc (Suc 0)) ''GB'' = Body ?dGB" by (simp add: sample_providers_api_def)
  have b0: "region_body ''FR'' ?dFR ?i = Inr (False, ?u1)" by code_simp
  have b2: "region_body ''GB'' ?dGB ?u1 = Inr (True, ?u3)" by code_simp
  have "regions_loop ?api 0 (''FR'' # [''US'', ''GB'', ''IN'']) ?i [] =
          (if any_named ?u1 then ([] @ [''FR''], Inr ?u1)
           else regions_loop ?api (Suc 0) [''US'', ''GB'', ''IN''] ?u1 ([] @ [''FR'']))"
    using iteration_stops_at_first_named_slot[of ?i ?api 0 "''FR''" ?dFR False ?u1 "[''US'', ''GB'', ''IN'']" "[]"] n0 d0 b0
    by blast
  then have s0: "regions_loop ?api 0 [''FR'', ''US'', ''GB'', ''IN''] ?i [] =
      regions_loop ?api (Suc 0) [''US'', ''GB'', ''IN''] ?u1 [''FR'']"
    using n1 by simp
  have s1: "regions_loop ?api (Suc 0) (''US'' # [''GB'', ''IN'']) ?u1 [''FR''] =
      regions_loop ?api (Suc (Suc 0)) [''GB'', ''IN''] ?u1 ([''FR''] @ [''US''])"
    using iteration_stops_at_first_named_slot[of ?u1 ?api "Suc 0" "''US''" _ _ _ "[''GB'', ''IN'']" "[''FR'']"] d1
    by blast
  have "regions_loop ?api (Suc (Suc 0)) (''GB'' # [''IN'']) ?u1 ([''FR''] @ [''US'']) =
          (if any_named ?u3 then (([''FR''] @ [''US'']) @ [''GB''], Inr ?u3)
           else regions_loop ?api (Suc (Suc (Suc 0))) [''IN''] ?u3 (([''FR''] @ [''US'']) @ [''GB'']))"
    using iteration_stops_at_first_named_slot[of ?u1 ?api "Suc (Suc 0)" "''GB''" ?dGB True ?u3 "[''IN'']" "[''FR''] @ [''US'']"] n1 d2 b2
    by blast
  then have s2: "regions_loop ?api (Suc (Suc 0)) [''GB'', ''IN''] ?u1 ([''FR''] @ [''US'']) =
       ([''FR'', ''US'', ''GB''], Inr ?u3)"
    using n3 by simp
  have g: "get_providers ?api ''FR'' = ([''FR'', ''US'', ''GB''], Inr ?u3)"
    unfolding get_providers_def fallback_regions_def using s0 s1 s2 by simp
  let ?api2 = "\<lambda>(n::nat) (reg::string). Body (PDict [(''results'', PDict [(''CA'', PDict [])])])"
  have nd: "no_region_data ''US'' (PDict [(''results'', PDict [(''CA'', PDict [])])])"
    by (simp add: dict_get_default_def)
  have e: "get_providers ?api2 ''US'' = ([''US'', ''US'', ''GB'', ''IN''], Inr ?i)"
    by code_simp
  from n0 g nd e show ?thesis by blast
qed

section \<open>Properties of the upload endpoint\<close>

subsection \<open>The store and the save loop\<close>

lemma create_search_result_Inr:
  assumes "create_search_result e d st = Inr (row, st')"
  shows "results st' = results st @ [row]"
    and "audio_searches st' = audio_searches st"
    and "url row = dict_get_default d ''url'' (PStr [])"
  using assms
  by (auto simp: create_search_result_def Let_def search_result_of_def split: if_splits)

lemma attach_result_results [simp]: "results (attach_result sid rid st) = results st"
  by (simp add: attach_result_def)

lemma attach_result_length [simp]:
  "length (audio_searches (attach_result sid rid st)) = length (audio_searches st)"
  by (simp add: attach_result_def)

lemma mark_processed_results [simp]: "results (mark_processed sid t st) = results st"
  by (simp add: mark_processed_def)

lemma mark_processed_length [simp]:
  "length (audio_searches (mark_processed sid t st)) = length (audio_searches st)"
  by (simp add: mark_processed_def)

lemma save_results_appends:
  "save_results e sid rs st created = (x, st', created') \<Longrightarrow>
   \<exists>new. created' = created @ new \<and> results st' = results st @ new \<and>
         (\<forall>r \<in> set new. truthy (url r)) \<and>
         length (audio_searches st') = length (audio_searches st)"
proof (induction e sid rs st created arbitrary: x st' created' rule: save_results.induct)
  case (1 e sid st created)
  then show ?case by simp
next
  case (2 e sid result_data rest st created)
  show ?case
  proof (cases "truthy (dict_get result_data ''url'')")
    case False
    with 2 show ?thesis by simp
  next
    case True
    show ?thesis
    proof (cases "create_search_result e result_data st")
      case (Inl a)
      with "2.prems" True show ?thesis by simp
    next
      case (Inr p)
      obtain row st1 where p: "p = (row, st1)" by (cases p)
      note c = create_search_result_Inr[OF Inr[unfolded p]]
      from "2.prems" True Inr p
      have l: "save_results e sid rest (attach_result sid (result_id row) st1) (created @ [row])
                 = (x, st', created')" by simp
      from "2.IH"(2)[OF _ Inr[unfolded p] refl l] True
      obtain new where n: "created' = (created @ [row]) @ new"
        "results st' = results (attach_result sid (result_id row) st1) @ new"
        "\<forall>r \<in> set new. truthy (url r)"
        "length (audio_searches st') = length (audio_searches (attach_result sid (result_id row) st1))"
        by auto
      have "truthy (url row)" using c(3) True by (simp add: dict_get_default_truthy)
      with n c show ?thesis by (intro exI[of _ "row # new"]) simp
    qed
  qed
qed simp_all

lemma save_results_filter:
  "save_results e sid (filter (\<lambda>r. \<not> lacks_url r) rs) st created
     = save_results e sid rs st created"
proof (induction e sid rs st created rule: save_results.induct)
  case (2 e sid result_data rest st created)
  then show ?case by (auto split: sum.splits)
qed simp_all

lemma save_results_all_lack_url:
  "list_all lacks_url rs \<Longrightarrow> save_results e sid rs st created = (None, st, created)"
proof (induction rs)
  case Nil
  then show ?case by simp
next
  case (Cons r rs)
  then show ?case by (cases r) auto
qed

lemma create_audio_search_eq:
  "create_audio_search f st =
     (Suc (audio_seq st),
      st\<lparr>audio_searches := audio_searches st @
                 [\<lparr>search_id = Suc (audio_seq st), audio_file = f, search_results = [],
                   is_processed = False, processing_time = None\<rparr>],
          audio_seq := Suc (audio_seq st)\<rparr>)"
  by (simp add: create_audio_search_def Let_def)

subsection \<open>The outcomes of a request\<close>

lemma no_result_process_audio:
  "no_result (process_audio a) = Inr (no_usable_match a)"
proof (cases a)
  case PostRaised
  then show ?thesis by (simp add: no_result_def)
next
  case (Replied code b)
  show ?thesis
  proof (cases b)
    case None
    with Replied show ?thesis by (simp add: no_result_def)
  next
    case (Some v)
    show ?thesis
    proof (cases v)
      case (PDict d)
      with Replied Some show ?thesis
        by (auto simp: no_result_def dict_get_def dict_get_default_def split: option.splits)
    qed (use Replied Some in \<open>simp_all add: no_result_def\<close>)
  qed
qed

lemma process_upload_outcome:
  assumes "create_audio_search f st = (sid, st1)"
  shows "(no_result (process_audio (audd e)) = Inr True \<and>
          process_upload e f st =
            ((500, ErrorBody ''Audio recognition failed or no result found''), st1)) \<or>
         (no_result (process_audio (audd e)) \<noteq> Inr True \<and>
          (\<exists>x. process_upload e f st = ((500, ProcessingFailed x), st1))) \<or>
         (no_result (process_audio (audd e)) \<noteq> Inr True \<and>
          (\<exists>combined x st2 created.
             save_results e sid combined st1 [] = (Some x, st2, created) \<and>
             process_upload e f st = ((500, ProcessingFailed x), st2))) \<or>
         (no_result (process_audio (audd e)) \<noteq> Inr True \<and>
          (\<exists>combined st2 created.
             save_results e sid combined st1 [] = (None, st2, created) \<and>
             process_upload e f st =
               ((200, ResultsBody sid (elapsed e) created), mark_processed sid (elapsed e) st2)))"
proof (cases "no_result (process_audio (audd e))")
  case (Inl x)
  with assms show ?thesis by (simp add: process_upload_def)
next
  case (Inr b)
  show ?thesis
  proof (cases b)
    case True
    with Inr assms show ?thesis by (simp add: process_upload_def)
  next
    case False
    from Inr False have nr: "no_result (process_audio (audd e)) = Inr False" by simp
    show ?thesis
    proof (cases "py_getitem (process_audio (audd e)) ''result''")
      case (Inl x)
      with nr assms show ?thesis by (simp add: process_upload_def)
    next
      case res: (Inr result)
      show ?thesis
      proof (cases "get_youtube_results e result")
        case (Inl x)
        with nr res assms show ?thesis by (simp add: process_upload_def)
      next
        case yt: (Inr youtube_results)
        show ?thesis
        proof (cases "get_tmdb_streaming_availability e result")
          case (Inl x)
          with nr res yt assms show ?thesis by (simp add: process_upload_def)
        next
          case tm: (Inr tmdb_results)
          let ?c = "combine_results (PList youtube_results) (PList tmdb_results)"
          obtain x st2 created where s: "save_results e sid ?c st1 [] = (x, st2, created)"
            by (cases "save_results e sid ?c st1 []") auto
          show ?thesis
          proof (cases x)
            case None
            with s nr res yt tm assms
            have "process_upload e f st =
               ((200, ResultsBody sid (elapsed e) created), mark_processed sid (elapsed e) st2)"
              by (simp add: process_upload_def)
            with s None nr show ?thesis by auto
          next
            case (Some y)
            with s nr res yt tm assms
            have "process_upload e f st = ((500, ProcessingFailed y), st2)"
              by (simp add: process_upload_def)
            with s Some nr show ?thesis by auto
          qed
        qed
      qed
    qed
  qed
qed

lemma post_valid:
  "valid_upload (Some f) \<Longrightarrow> post e (Some f) st = process_upload e f st"
  by (simp add: post_def)

lemma post_invalid:
  "\<not> valid_upload file \<Longrightarrow>
   post e file st =
     ((400, ErrorBody (case file of None \<Rightarrow> ''No file uploaded''
                       | Some f \<Rightarrow> if \<not> startswith (content_type f) ''audio/''
                                   then ''File must be an audio file''
                                   else ''File size must be less than 10MB'')), st)"
  by (cases "file") (auto simp: post_def)

lemma post_status_store:
  assumes "valid_upload (Some f)"
  shows "(fst (fst (post e (Some f) st)) = 500 \<or> fst (fst (post e (Some f) st)) = 200) \<and>
         length (audio_searches (snd (post e (Some f) st))) = Suc (length (audio_searches st)) \<and>
         take (length (results st)) (results (snd (post e (Some f) st))) = results st \<and>
         (\<forall>r \<in> set (drop (length (results st)) (results (snd (post e (Some f) st)))).
            truthy (url r)) \<and>
         (fst (fst (post e (Some f) st)) = 200 \<longrightarrow>
            returned_results (snd (fst (post e (Some f) st))) =
              drop (length (results st)) (results (snd (post e (Some f) st)))) \<and>
         (fst (fst (post e (Some f) st)) \<noteq> 200 \<longrightarrow>
            returned_results (snd (fst (post e (Some f) st))) = [])"
proof -
  let ?sid = "Suc (audio_seq st)"
  let ?st1 = "st\<lparr>audio_searches := audio_searches st @
                 [\<lparr>search_id = ?sid, audio_file = f, search_results = [],
                   is_processed = False, processing_time = None\<rparr>],
          audio_seq := ?sid\<rparr>"
  have c: "create_audio_search f st = (?sid, ?st1)" by (rule create_audio_search_eq)
  have p: "post e (Some f) st = process_upload e f st" using assms by (rule post_valid)
  have r1: "results ?st1 = results st" by simp
  have l1: "length (audio_searches ?st1) = Suc (length (audio_searches st))" by simp
  from process_upload_outcome[OF c, of e]
  consider
    (a) "process_upload e f st =
            ((500, ErrorBody ''Audio recognition failed or no result found''), ?st1)"
  | (b) x where "process_upload e f st = ((500, ProcessingFailed x), ?st1)"
  | (c) combined x st2 created where
          "save_results e ?sid combined ?st1 [] = (Some x, st2, created)"
          "process_upload e f st = ((500, ProcessingFailed x), st2)"
  | (d) combined st2 created where
          "save_results e ?sid combined ?st1 [] = (None, st2, created)"
          "process_upload e f st =
             ((200, ResultsBody ?sid (elapsed e) created), mark_processed ?sid (elapsed e) st2)"
    by blast
  then show ?thesis
  proof cases
    case a
    with p r1 l1 show ?thesis by simp
  next
    case b
    with p r1 l1 show ?thesis by simp
  next
    case c
    from save_results_appends[OF c(1)] obtain new where
      n: "created = [] @ new" "results st2 = results ?st1 @ new"
         "\<forall>r \<in> set new. truthy (url r)"
         "length (audio_searches st2) = length (audio_searches ?st1)" by blast
    with p c(2) r1 l1 show ?thesis by simp
  next
    case d
    from save_results_appends[OF d(1)] obtain new where
      n: "created = [] @ new" "results st2 = results ?st1 @ new"
         "\<forall>r \<in> set new. truthy (url r)"
         "length (audio_searches st2) = length (audio_searches ?st1)" by blast
    with p d(2) r1 l1 show ?thesis by simp
  qed
qed

subsection \<open>Claims on the endpoint\<close>

text \<open>
  C6. A merged record whose \<^verbatim>\<open>url\<close> is empty or absent is skipped by the save loop: the
  loop does the same with these records removed, and a list of nothing but such records
  saves nothing and ends well. For every request the rows that were in the store stay
  as they were, every row the request adds has a true, hence non-empty, \<^verbatim>\<open>url\<close>, and so
  has every row of the returned \<^verbatim>\<open>results\<close> array, which in a 200 response is the list
  of the rows added.
\<close>

theorem urlless_records_neither_saved_nor_returned:
  "save_results e sid (filter (\<lambda>r. \<not> lacks_url r) rs) st created
     = save_results e sid rs st created \<and>
   (list_all lacks_url rs \<longrightarrow> save_results e sid rs st created = (None, st, created)) \<and>
   take (length (results st)) (results (snd (post e file st))) = results st \<and>
   (\<forall>r \<in> set (drop (length (results st)) (results (snd (post e file st)))). truthy (url r)) \<and>
   (\<forall>r \<in> set (returned_results (snd (fst (post e file st)))). truthy (url r)) \<and>
   (fst (fst (post e file st)) = 200 \<longrightarrow>
      returned_results (snd (fst (post e file st))) =
        drop (length (results st)) (results (snd (post e file st))))"
proof (cases "valid_upload file")
  case True
  then obtain f where f: "file = Some f" by (cases "file") auto
  note s = post_status_store[OF True[unfolded f], of e st]
  have "\<forall>r \<in> set (returned_results (snd (fst (post e (Some f) st)))). truthy (url r)"
  proof (cases "fst (fst (post e (Some f) st)) = 200")
    case True
    with s show ?thesis by simp
  next
    case False
    with s show ?thesis by simp
  qed
  with s f show ?thesis
    by (simp add: save_results_filter save_results_all_lack_url)
next
  case False
  from post_invalid[OF False, of e st] show ?thesis
    by (simp add: save_results_filter save_results_all_lack_url)
qed

text \<open>
  In the sample request the TV show has no watch link: the two rows saved and returned
  are the video and the movie.
\<close>

theorem urlless_records_neither_saved_nor_returned_witness:
  "lacks_url (PDict [(''title'', PStr ''Imagine That''), (''url'', PNone)]) \<and>
   save_results sample_env 1 [PDict [(''title'', PStr ''Imagine That''), (''url'', PNone)]]
      empty_store [] = (None, empty_store, []) \<and>
   map url (returned_results (snd (fst (post sample_env (Some sample_upload) empty_store))))
     = [PStr ''https://www.youtube.com/watch?v=YkgkThdzX-8'', PStr ''https://tmdb/gb''] \<and>
   truthy (PStr ''https://www.youtube.com/watch?v=YkgkThdzX-8'') \<and>
   truthy (PStr ''https://tmdb/gb'')"
proof -
  let ?r = "PDict [(''title'', PStr ''Imagine That''), (''url'', PNone)]"
  have l: "lacks_url ?r" by (simp add: dict_get_def dict_get_default_def)
  then have "list_all lacks_url [?r]" by simp
  with urlless_records_neither_saved_nor_returned[of sample_env 1 "[?r]" empty_store "[]" "Some sample_upload"]
  have s: "save_results sample_env 1 [?r] empty_store [] = (None, empty_store, [])" by blast
  have ok: "fst (fst (post sample_env (Some sample_upload) empty_store)) = 200" by code_simp
  have rows: "map url (results (snd (post sample_env (Some sample_upload) empty_store)))
     = [PStr ''https://www.youtube.com/watch?v=YkgkThdzX-8'', PStr ''https://tmdb/gb'']"
    by code_simp
  from urlless_records_neither_saved_nor_returned[of sample_env 1 "[?r]" empty_store "[]" "Some sample_upload"] ok
  have "returned_results (snd (fst (post sample_env (Some sample_upload) empty_store))) =
        drop (length (results empty_store)) (results (snd (post sample_env (Some sample_upload) empty_store)))"
    by blast
  then have "map url (returned_results (snd (fst (post sample_env (Some sample_upload) empty_store))))
     = [PStr ''https://www.youtube.com/watch?v=YkgkThdzX-8'', PStr ''https://tmdb/gb'']"
    using rows by (simp add: empty_store_def)
  with l s show ?thesis by simp
qed

text \<open>
  C7. The response has status 400 exactly when the upload fails validation: the file
  field is absent, or the MIME type does not begin with \<^verbatim>\<open>audio/\<close>, or the size exceeds
  10,485,760 bytes. A rejected upload gets a reason text and leaves the store as it
  was; without a file the body is \<^verbatim>\<open>{"error": "No file uploaded"}\<close>. An upload that
  passes creates its \<^verbatim>\<open>AudioSearch\<close> record.
\<close>

theorem upload_validation:
  "(fst (fst (post e file st)) = 400 \<longleftrightarrow> \<not> valid_upload file) \<and>
   (\<not> valid_upload file \<longrightarrow>
      snd (post e file st) = st \<and> has_reason (snd (fst (post e file st)))) \<and>
   post e None st = ((400, ErrorBody ''No file uploaded''), st) \<and>
   (valid_upload file \<longrightarrow>
      length (audio_searches (snd (post e file st))) = Suc (length (audio_searches st)))"
proof (cases "valid_upload file")
  case True
  then obtain f where f: "file = Some f" by (cases "file") auto
  from post_status_store[OF True[unfolded f], of e st] f True
  show ?thesis by (auto simp: post_def)
next
  case False
  from post_invalid[OF False, of e st] False show ?thesis
    by (auto simp: post_def split: option.splits)
qed

theorem upload_validation_witness:
  "\<not> valid_upload (Some \<lparr>file_name = ''notes.txt'', content_type = ''text/plain'', file_size = 10\<rparr>) \<and>
   post sample_env (Some \<lparr>file_name = ''notes.txt'', content_type = ''text/plain'', file_size = 10\<rparr>)
        empty_store = ((400, ErrorBody ''File must be an audio file''), empty_store) \<and>
   \<not> valid_upload (Some \<lparr>file_name = ''long.mp3'', content_type = ''audio/mpeg'', file_size = 10485761\<rparr>) \<and>
   fst (fst (post sample_env
     (Some \<lparr>file_name = ''long.mp3'', content_type = ''audio/mpeg'', file_size = 10485761\<rparr>)
     empty_store)) = 400 \<and>
   valid_upload (Some \<lparr>file_name = ''full.mp3'', content_type = ''audio/mpeg'', file_size = 10485760\<rparr>) \<and>
   fst (fst (post sample_env
     (Some \<lparr>file_name = ''full.mp3'', content_type = ''audio/mpeg'', file_size = 10485760\<rparr>)
     empty_store)) \<noteq> 400 \<and>
   length (audio_searches (snd (post sample_env
     (Some \<lparr>file_name = ''full.mp3'', content_type = ''audio/mpeg'', file_size = 10485760\<rparr>)
     empty_store))) = 1"
proof -
  let ?txt = "Some \<lparr>file_name = ''notes.txt'', content_type = ''text/plain'', file_size = 10\<rparr>"
  let ?long = "Some \<lparr>file_name = ''long.mp3'', content_type = ''audio/mpeg'', file_size = 10485761\<rparr>"
  let ?full = "Some \<lparr>file_name = ''full.mp3'', content_type = ''audio/mpeg'', file_size = 10485760\<rparr>"
  have a: "\<not> valid_upload ?txt" by (simp add: startswith_def)
  have b: "\<not> valid_upload ?long" by (simp add: startswith_def)
  have c: "valid_upload ?full" by (simp add: startswith_def)
  have t: "post sample_env ?txt empty_store = ((400, ErrorBody ''File must be an audio file''), empty_store)"
    by (simp add: post_def startswith_def)
  from upload_validation[of sample_env ?long empty_store] b
  have l: "fst (fst (post sample_env ?long empty_store)) = 400" by blast
  from upload_validation[of sample_env ?full empty_store] c
  have f: "fst (fst (post sample_env ?full empty_store)) \<noteq> 400"
    "length (audio_searches (snd (post sample_env ?full empty_store))) = Suc (length (audio_searches empty_store))"
    by blast+
  have "length (audio_searches empty_store) = 0" by (simp add: empty_store_def)
  with a b c t l f show ?thesis by simp
qed

text \<open>
  C8. For an upload that passed validation: when the fingerprint service returns no
  usable match (a null result, a missing \<^verbatim>\<open>result\<close> key, a malformed or failed
  response), the response has status 500 and its error text contains
  \<^verbatim>\<open>Audio recognition failed\<close>; and the response is this one in no other case.
\<close>

theorem recognition_failure_response:
  assumes "valid_upload file"
  shows "(no_usable_match (audd e) \<longrightarrow>
            fst (fst (post e file st)) = 500 \<and>
            error_contains ''Audio recognition failed'' (snd (fst (post e file st)))) \<and>
         (fst (post e file st) = (500, ErrorBody ''Audio recognition failed or no result found'')
            \<longleftrightarrow> no_usable_match (audd e))"
proof -
  from assms obtain f where f: "file = Some f" by (cases "file") auto
  have p: "post e file st = process_upload e f st" using assms f by (simp add: post_valid)
  have t: "str_contains ''Audio recognition failed'' ''Audio recognition failed or no result found''"
    by (simp add: startswith_def)
  obtain sid st1 where c: "create_audio_search f st = (sid, st1)" by fastforce
  from process_upload_outcome[OF c, of e]
  have "(no_usable_match (audd e) \<and> process_upload e f st =
            ((500, ErrorBody ''Audio recognition failed or no result found''), st1)) \<or>
        (\<not> no_usable_match (audd e) \<and>
           (\<exists>x s. process_upload e f st = ((500, ProcessingFailed x), s))) \<or>
        (\<not> no_usable_match (audd e) \<and>
           (\<exists>i t rows s. process_upload e f st = ((200, ResultsBody i t rows), s)))"
    unfolding no_result_process_audio by auto
  then show ?thesis using p t by auto
qed

theorem recognition_failure_response_witness:
  "valid_upload (Some sample_upload) \<and>
   no_usable_match (Replied 200 (Some (PDict [(''status'', PStr ''success''), (''result'', PNone)]))) \<and>
   fst (post (sample_env\<lparr>audd := Replied 200
               (Some (PDict [(''status'', PStr ''success''), (''result'', PNone)]))\<rparr>)
          (Some sample_upload) empty_store)
     = (500, ErrorBody ''Audio recognition failed or no result found'') \<and>
   no_usable_match (Replied 200 (Some (PDict [(''status'', PStr ''success'')]))) \<and>
   no_usable_match (Replied 503 None) \<and>
   fst (post (sample_env\<lparr>audd := Replied 503 None\<rparr>) (Some sample_upload) empty_store)
     = (500, ErrorBody ''Audio recognition failed or no result found'')"
proof -
  let ?null = "Replied 200 (Some (PDict [(''status'', PStr ''success''), (''result'', PNone)]))"
  have v: "valid_upload (Some sample_upload)"
    by (simp add: sample_upload_def startswith_def)
  have n: "no_usable_match ?null" by (simp add: dict_get_def dict_get_default_def)
  have m: "no_usable_match (Replied 200 (Some (PDict [(''status'', PStr ''success'')])))"
    by (simp add: dict_get_def dict_get_default_def)
  have d: "no_usable_match (Replied 503 None)" by simp
  from recognition_failure_response[OF v, of "sample_env\<lparr>audd := ?null\<rparr>" empty_store] n
  have 1: "fst (post (sample_env\<lparr>audd := ?null\<rparr>) (Some sample_upload) empty_store)
     = (500, ErrorBody ''Audio recognition failed or no result found'')" by simp
  from recognition_failure_response[OF v, of "sample_env\<lparr>audd := Replied 503 None\<rparr>" empty_store] d
  have 2: "fst (post (sample_env\<lparr>audd := Replied 503 None\<rparr>) (Some sample_upload) empty_store)
     = (500, ErrorBody ''Audio recognition failed or no result found'')" by simp
  from v n m d 1 2 show ?thesis by blast
qed

text \<open>
  C10. When recognition fails the response is a 500 and the store is the one before
  the request plus the \<^verbatim>\<open>AudioSearch\<close> record created on acceptance: not processed,
  without a processing time, with no result attached; no \<^verbatim>\<open>SearchResult\<close> row is
  written and nothing is rolled back.
\<close>

theorem audio_search_kept_on_recognition_failure:
  assumes "valid_upload (Some f)" and "no_usable_match (audd e)"
  shows "fst (fst (post e (Some f) st)) = 500 \<and>
         snd (post e (Some f) st) =
           st\<lparr>audio_searches := audio_searches st @
                 [\<lparr>search_id = Suc (audio_seq st), audio_file = f, search_results = [],
                   is_processed = False, processing_time = None\<rparr>],
              audio_seq := Suc (audio_seq st)\<rparr>"
proof -
  have p: "post e (Some f) st = process_upload e f st" using assms(1) by (rule post_valid)
  from process_upload_outcome[OF create_audio_search_eq, of e f st] assms(2)
  show ?thesis unfolding p no_result_process_audio by auto
qed

theorem audio_search_kept_on_recognition_failure_witness:
  "valid_upload (Some sample_upload) \<and>
   no_usable_match (Replied 200 (Some (PDict [(''status'', PStr ''success''), (''result'', PNone)]))) \<and>
   snd (post (sample_env\<lparr>audd := Replied 200
               (Some (PDict [(''status'', PStr ''success''), (''result'', PNone)]))\<rparr>)
          (Some sample_upload) empty_store)
     = \<lparr>audio_searches = [\<lparr>search_id = 1, audio_file = sample_upload, search_results = [],
                            is_processed = False, processing_time = None\<rparr>],
        results = [], audio_seq = 1, result_seq = 0\<rparr>"
proof -
  let ?null = "Replied 200 (Some (PDict [(''status'', PStr ''success''), (''result'', PNone)]))"
  have v: "valid_upload (Some sample_upload)"
    by (simp add: sample_upload_def startswith_def)
  have n: "no_usable_match (audd (sample_env\<lparr>audd := ?null\<rparr>))"
    by (simp add: dict_get_def dict_get_default_def)
  from audio_search_kept_on_recognition_failure[OF v n, of empty_store]
  have "snd (post (sample_env\<lparr>audd := ?null\<rparr>) (Some sample_upload) empty_store)
     = \<lparr>audio_searches = [\<lparr>search_id = 1, audio_file = sample_upload, search_results = [],
                            is_processed = False, processing_time = None\<rparr>],
        results = [], audio_seq = 1, result_seq = 0\<rparr>"
    by (simp add: empty_store_def)
  with v n show ?thesis by simp
qed

end
